theory Spec2Isabelle
  imports Complex_Main "HOL-Library.Word"
begin

section \<open>Go values\<close>

text \<open>
  A Go \<^verbatim>\<open>string\<close> is a sequence of bytes: \<^typ>\<open>string\<close>, with \<^const>\<open>length\<close> for
  \<^verbatim>\<open>len\<close>. Go's \<^verbatim>\<open>int\<close> has 64 bits on the two platforms the repository builds for
  (amd64 and arm64): a \<^typ>\<open>64 word\<close>, read as two's complement by \<^const>\<open>sint\<close>, whose
  addition wraps around as Go's does.
\<close>

type_synonym go_int = "64 word"

text \<open>
  Errors are values. \<open>Opaque\<close> is an error handed back by something outside the program
  (a failed command, a file that cannot be read, the process library, the JSON decoder),
  \<open>ErrorsNew\<close> is \<^verbatim>\<open>errors.New(msg)\<close>, \<open>NumError\<close> is what \<^verbatim>\<open>strconv.Atoi\<close> returns
  (the offending input and the reason), and \<open>Wrapped msg e\<close> is
  \<^verbatim>\<open>fmt.Errorf("msg: %w", e)\<close>.
\<close>

datatype error =
    Opaque string
  | ErrorsNew string
  | NumError string string
  | Wrapped string error

section \<open>Library functions on byte strings\<close>

text \<open>
  \<^verbatim>\<open>strings.Split(s, sep)\<close> for a separator of one byte. The result is never empty:
  the empty string splits into one empty piece.
\<close>

fun Split :: "string \<Rightarrow> char \<Rightarrow> string list" where
  "Split [] sep = [[]]"
| "Split (c # cs) sep =
     (if c = sep then [] # Split cs sep
      else (case Split cs sep of
              [] \<Rightarrow> [[c]]
            | piece # pieces \<Rightarrow> (c # piece) # pieces))"

definition newline :: char where
  "newline = CHR 0x0A"

text \<open>The inverse direction, used to state properties of texts: lines joined by a separator.\<close>

fun Join :: "string list \<Rightarrow> char \<Rightarrow> string" where
  "Join [] sep = []"
| "Join [l] sep = l"
| "Join (l # l' # ls) sep = l @ sep # Join (l' # ls) sep"

text \<open>
  \<^verbatim>\<open>strings.Fields\<close> and \<^verbatim>\<open>strings.TrimSpace\<close> cut at the white space of
  \<^verbatim>\<open>unicode.IsSpace\<close>, read from the UTF-8 bytes of the string: the six ASCII characters
  (tab, line feed, vertical tab, form feed, carriage return, space), U+0085 and U+00A0
  (two bytes each), and U+1680, U+2000 to U+200A, U+2028, U+2029, U+202F, U+205F and U+3000
  (three bytes each). Every such encoding starts with a byte that is not a continuation
  byte, and Go's decoder, which steps over one byte at an invalid sequence, never skips
  such a byte; so a white-space rune is found exactly where its bytes stand.
  \<open>space_width s\<close> is the number of bytes of the white-space rune that \<open>s\<close> starts with (0
  if it starts with none), \<open>space_width_back\<close> the same for the rune a string ends with,
  on the reversed string.
\<close>

definition ascii_space :: "char \<Rightarrow> bool" where
  "ascii_space c \<longleftrightarrow> c \<in> set [CHR 0x09, CHR 0x0A, CHR 0x0B, CHR 0x0C, CHR 0x0D, CHR '' '']"

definition space_rune2 :: "char \<Rightarrow> char \<Rightarrow> bool" where
  "space_rune2 a b \<longleftrightarrow> a = CHR 0xC2 \<and> (b = CHR 0x85 \<or> b = CHR 0xA0)"

definition space_rune3 :: "char \<Rightarrow> char \<Rightarrow> char \<Rightarrow> bool" where
  "space_rune3 a b c \<longleftrightarrow>
     a = CHR 0xE1 \<and> b = CHR 0x9A \<and> c = CHR 0x80 \<or>
     a = CHR 0xE2 \<and> b = CHR 0x80 \<and>
       ((128::nat) \<le> of_char c \<and> of_char c \<le> (138::nat) \<or>
        c = CHR 0xA8 \<or> c = CHR 0xA9 \<or> c = CHR 0xAF) \<or>
     a = CHR 0xE2 \<and> b = CHR 0x81 \<and> c = CHR 0x9F \<or>
     a = CHR 0xE3 \<and> b = CHR 0x80 \<and> c = CHR 0x80"

fun space_width :: "string \<Rightarrow> nat" where
  "space_width [] = 0"
| "space_width [a] = (if ascii_space a then Suc 0 else 0)"
| "space_width [a, b] =
     (if ascii_space a then Suc 0 else if space_rune2 a b then Suc (Suc 0) else 0)"
| "space_width (a # b # c # s) =
     (if ascii_space a then Suc 0 else if space_rune2 a b then Suc (Suc 0)
      else if space_rune3 a b c then Suc (Suc (Suc 0)) else 0)"

fun space_width_back :: "string \<Rightarrow> nat" where
  "space_width_back [] = 0"
| "space_width_back [a] = (if ascii_space a then Suc 0 else 0)"
| "space_width_back [b, a] =
     (if ascii_space b then Suc 0 else if space_rune2 a b then Suc (Suc 0) else 0)"
| "space_width_back (c # b # a # s) =
     (if ascii_space c then Suc 0 else if space_rune2 b c then Suc (Suc 0)
      else if space_rune3 a b c then Suc (Suc (Suc 0)) else 0)"

text \<open>
  \<^verbatim>\<open>strings.Fields\<close>: the maximal runs of bytes between white-space runes. \<open>field\<close> is
  the field being read and \<open>skip\<close> the number of bytes of the current white-space rune
  still to step over.
\<close>

fun Fields_from :: "string \<Rightarrow> nat \<Rightarrow> string \<Rightarrow> string list" where
  "Fields_from field skip [] = (if field = [] then [] else [field])"
| "Fields_from field (Suc skip) (c # cs) = Fields_from field skip cs"
| "Fields_from field 0 (c # cs) =
     (if space_width (c # cs) = 0 then Fields_from (field @ [c]) 0 cs
      else if field = [] then Fields_from [] (space_width (c # cs) - 1) cs
      else field # Fields_from [] (space_width (c # cs) - 1) cs)"

definition Fields :: "string \<Rightarrow> string list" where
  "Fields s = Fields_from [] 0 s"

text \<open>
  \<^verbatim>\<open>strings.TrimSpace\<close>: the white-space runes at the start are removed, then those at
  the end of what is left.
\<close>

fun TrimLeft_from :: "nat \<Rightarrow> string \<Rightarrow> string" where
  "TrimLeft_from skip [] = []"
| "TrimLeft_from (Suc skip) (c # cs) = TrimLeft_from skip cs"
| "TrimLeft_from 0 (c # cs) =
     (if space_width (c # cs) = 0 then c # cs
      else TrimLeft_from (space_width (c # cs) - 1) cs)"

fun TrimRight_from :: "nat \<Rightarrow> string \<Rightarrow> string" where
  "TrimRight_from skip [] = []"
| "TrimRight_from (Suc skip) (c # cs) = TrimRight_from skip cs"
| "TrimRight_from 0 (c # cs) =
     (if space_width_back (c # cs) = 0 then c # cs
      else TrimRight_from (space_width_back (c # cs) - 1) cs)"

definition TrimSpace :: "string \<Rightarrow> string" where
  "TrimSpace s = rev (TrimRight_from 0 (rev (TrimLeft_from 0 s)))"

text \<open>
  \<^verbatim>\<open>strconv.Atoi\<close>: an optional sign, then one or more decimal digits and nothing else;
  a value outside the 64-bit range is an error too.
\<close>

definition is_digit :: "char \<Rightarrow> bool" where
  "is_digit c \<longleftrightarrow> (48::nat) \<le> of_char c \<and> of_char c \<le> (57::nat)"

definition digits_value :: "string \<Rightarrow> nat" where
  "digits_value ds = foldl (\<lambda>n c. n * 10 + (of_char c - 48)) 0 ds"

definition Atoi :: "string \<Rightarrow> error + go_int" where
  "Atoi s =
     (let neg = (s \<noteq> [] \<and> hd s = CHR ''-'');
          ds = (if s \<noteq> [] \<and> (hd s = CHR ''-'' \<or> hd s = CHR ''+'') then tl s else s)
      in if ds = [] \<or> \<not> list_all is_digit ds then Inl (NumError s ''invalid syntax'')
         else (let v = (if neg then - int (digits_value ds) else int (digits_value ds))
               in if v < - (2 ^ 63) \<or> 2 ^ 63 - 1 < v
                  then Inl (NumError s ''value out of range'')
                  else Inr (word_of_int v)))"

text \<open>
  \<^verbatim>\<open>strconv.Itoa\<close>: the decimal digits of the value, after a minus sign if it is
  negative. A 64-bit value has at most 19 digits, so 19 rounds always suffice.
\<close>

fun nat_digits :: "nat \<Rightarrow> nat \<Rightarrow> string" where
  "nat_digits 0 n = []"
| "nat_digits (Suc k) n =
     (if n < 10 then [char_of (48 + n)]
      else nat_digits k (n div 10) @ [char_of (48 + n mod 10)])"

definition Itoa :: "go_int \<Rightarrow> string" where
  "Itoa i =
     (if sint i < 0 then CHR ''-'' # nat_digits 19 (nat (- sint i))
      else nat_digits 19 (nat (sint i)))"

section \<open>Open files: the tagged output of lsof\<close>

record LsofOutput =
  Command :: string
  PID :: string
  User :: string
  FD :: string
  Type :: string
  Device :: string
  SizeOff :: string
  Node :: string
  Name :: string

text \<open>The zero value \<^verbatim>\<open>LsofOutput{}\<close>.\<close>

definition LsofOutput_zero :: LsofOutput where
  "LsofOutput_zero =
     \<lparr>Command = [], PID = [], User = [], FD = [], Type = [], Device = [],
      SizeOff = [], Node = [], Name = []\<rparr>"

text \<open>
  One round of the line loop of \<^verbatim>\<open>getOpenFiles\<close>, on the pair of the records emitted so
  far (\<^verbatim>\<open>entries\<close>) and the record being filled (\<^verbatim>\<open>entry\<close>). The guard
  \<^verbatim>\<open>len(line) > 1\<close> protects \<^verbatim>\<open>line[0]\<close> and \<^verbatim>\<open>line[1:]\<close>, here \<^const>\<open>hd\<close> and \<^const>\<open>tl\<close>.
\<close>

definition lsof_line :: "LsofOutput list \<times> LsofOutput \<Rightarrow> string \<Rightarrow> LsofOutput list \<times> LsofOutput" where
  "lsof_line st line =
     (case st of (entries, entry) \<Rightarrow>
        if 1 < length line then
          (if hd line = CHR ''p'' then
             (if LsofOutput.PID entry \<noteq> []
              then (entries @ [entry], LsofOutput_zero\<lparr>LsofOutput.PID := tl line\<rparr>)
              else (entries, entry\<lparr>LsofOutput.PID := tl line\<rparr>))
           else if hd line = CHR ''c'' then (entries, entry\<lparr>Command := tl line\<rparr>)
           else if hd line = CHR ''u'' then (entries, entry\<lparr>User := tl line\<rparr>)
           else if hd line = CHR ''f'' then (entries, entry\<lparr>FD := tl line\<rparr>)
           else if hd line = CHR ''t'' then (entries, entry\<lparr>Type := tl line\<rparr>)
           else if hd line = CHR ''D'' then (entries, entry\<lparr>Device := tl line\<rparr>)
           else if hd line = CHR ''s'' then (entries, entry\<lparr>SizeOff := tl line\<rparr>)
           else if hd line = CHR ''i'' then (entries, entry\<lparr>Node := tl line\<rparr>)
           else if hd line = CHR ''n'' then (entries, entry\<lparr>Name := tl line\<rparr>)
           else (entries, entry))
        else (entries, entry))"

text \<open>The loop over the lines, then the flush of the record still being filled.\<close>

definition lsof_lines :: "string list \<Rightarrow> LsofOutput list" where
  "lsof_lines lines =
     (case foldl lsof_line ([], LsofOutput_zero) lines of (entries, entry) \<Rightarrow>
        if LsofOutput.PID entry \<noteq> [] then entries @ [entry] else entries)"

text \<open>
  \<^verbatim>\<open>getOpenFiles\<close>, given what running lsof for the process returned: its combined
  output, or the error of the run.
\<close>

definition getOpenFiles :: "error + string \<Rightarrow> error + LsofOutput list" where
  "getOpenFiles lsof =
     (case lsof of
        Inl err \<Rightarrow> Inl err
      | Inr out \<Rightarrow> Inr (lsof_lines (Split out newline)))"

subsection \<open>What the specification says of the parser\<close>

text \<open>
  A well-formed block is a sequence of groups. A group is a \<open>p\<close> line carrying a value,
  followed by its tag lines, none of which is a \<open>p\<close> line with a value. The record the
  specification assigns to a group takes each field from the group's line with that tag
  (the last one if the tag is repeated) and leaves it empty if the group has none.
\<close>

definition p_line :: "string \<Rightarrow> bool" where
  "p_line l \<longleftrightarrow> 1 < length l \<and> hd l = CHR ''p''"

definition ignored_line :: "string \<Rightarrow> bool" where
  "ignored_line l \<longleftrightarrow> length l \<le> 1 \<or> hd l \<notin> set ''pcuftDsin''"

definition tag_value :: "char \<Rightarrow> string list \<Rightarrow> string" where
  "tag_value t body =
     (case filter (\<lambda>l. 1 < length l \<and> hd l = t) body of
        [] \<Rightarrow> []
      | l # ls \<Rightarrow> tl (last (l # ls)))"

text \<open>The same with a default: the value a field has after the lines, if it was \<open>d\<close> before.\<close>

definition tag_value_or :: "char \<Rightarrow> string list \<Rightarrow> string \<Rightarrow> string" where
  "tag_value_or t body d =
     (case filter (\<lambda>l. 1 < length l \<and> hd l = t) body of
        [] \<Rightarrow> d
      | l # ls \<Rightarrow> tl (last (l # ls)))"

definition group_record :: "string \<times> string list \<Rightarrow> LsofOutput" where
  "group_record g =
     \<lparr>Command = tag_value (CHR ''c'') (snd g),
      PID = fst g,
      User = tag_value (CHR ''u'') (snd g),
      FD = tag_value (CHR ''f'') (snd g),
      Type = tag_value (CHR ''t'') (snd g),
      Device = tag_value (CHR ''D'') (snd g),
      SizeOff = tag_value (CHR ''s'') (snd g),
      Node = tag_value (CHR ''i'') (snd g),
      Name = tag_value (CHR ''n'') (snd g)\<rparr>"

definition group_lines :: "string \<times> string list \<Rightarrow> string list" where
  "group_lines g = (CHR ''p'' # fst g) # snd g"

definition well_formed_group :: "string \<times> string list \<Rightarrow> bool" where
  "well_formed_group g \<longleftrightarrow>
     fst g \<noteq> [] \<and> newline \<notin> set (fst g) \<and>
     (\<forall>l \<in> set (snd g). \<not> p_line l \<and> newline \<notin> set l)"

section \<open>The data model\<close>

text \<open>
  The structs of the program. A \<^verbatim>\<open>float64\<close> is modelled by a real number (rounding is
  not modelled), a slice by a list (\<^verbatim>\<open>nil\<close> and the empty slice are both \<open>[]\<close>), a map
  by a partial function (\<^verbatim>\<open>nil\<close> and the empty map are both \<^const>\<open>Map.empty\<close>).
\<close>

record NetworkUsage =
  ReceivedBytes :: go_int
  TransmittedBytes :: go_int

record ProcessInfo =
  PID :: go_int
  User :: string
  CPU :: real
  MEM :: real
  CMD :: string

record ResourceLimits =
  CPULimit :: real
  MemoryLimit :: go_int
  DiskIOLimit :: go_int
  NetworkLimit :: go_int

record ResourceUsage =
  CPUUsage :: real
  MemoryUsage :: "string \<rightharpoonup> go_int"
  SwapUsage :: go_int

record Container =
  OciVersion :: string
  ID :: string
  PID :: go_int
  Status :: string
  Bundle :: string
  RootFS :: string
  Created :: string
  Annotations :: "string \<rightharpoonup> string"
  Owner :: string
  OpenFiles :: "LsofOutput list"
  NetworkUsage :: NetworkUsage
  MountedVolumes :: "string list"
  ExposedPorts :: "go_int list"
  TopProcesses :: "ProcessInfo list"
  SecurityProfiles :: "string list"
  StartCommand :: string
  ResourceLimits :: ResourceLimits
  EnvVariables :: "string list"
  ResourceUsage :: ResourceUsage

text \<open>The zero values \<^verbatim>\<open>NetworkUsage{}\<close>, \<^verbatim>\<open>ResourceUsage{}\<close> and \<^verbatim>\<open>Container{}\<close>.\<close>

definition NetworkUsage_zero :: NetworkUsage where
  "NetworkUsage_zero = \<lparr>ReceivedBytes = 0, TransmittedBytes = 0\<rparr>"

definition ResourceUsage_zero :: ResourceUsage where
  "ResourceUsage_zero = \<lparr>CPUUsage = 0, MemoryUsage = Map.empty, SwapUsage = 0\<rparr>"

definition Container_zero :: Container where
  "Container_zero =
     \<lparr>OciVersion = [], ID = [], PID = 0, Status = [], Bundle = [], RootFS = [],
      Created = [], Annotations = Map.empty, Owner = [], OpenFiles = [],
      NetworkUsage = NetworkUsage_zero, MountedVolumes = [], ExposedPorts = [],
      TopProcesses = [], SecurityProfiles = [], StartCommand = [],
      ResourceLimits = \<lparr>CPULimit = 0, MemoryLimit = 0, DiskIOLimit = 0, NetworkLimit = 0\<rparr>,
      EnvVariables = [], ResourceUsage = ResourceUsage_zero\<rparr>"

section \<open>What the operating system answers\<close>

text \<open>
  The adapters run tools, read pseudo-files and query the process library. What these
  answer for one process during one call of \<^verbatim>\<open>PopulateContainer\<close> is a \<open>probe\<close>: for each
  external mechanism its result, or the error it fails with. The two records before it are
  the parts the program reads of the library's \<^verbatim>\<open>net.ConnectionStat\<close> (the status and the
  local port, a \<^verbatim>\<open>uint32\<close>) and \<^verbatim>\<open>process.MemoryInfoStat\<close> (\<^verbatim>\<open>uint64\<close> counters, which
  the library documents as bytes).
\<close>

record ConnectionStat =
  conn_Status :: string
  conn_Laddr_Port :: "32 word"

record MemoryInfoStat =
  mem_RSS :: "64 word"
  mem_VMS :: "64 word"
  mem_Swap :: "64 word"

text \<open>
  On Linux the library's \<^verbatim>\<open>MemoryInfo\<close> reads the statm pseudo-file of the process, whose
  first two numbers are the total program size and the resident set size in pages: it
  answers these two multiplied by the page size, and leaves the swap counter at 0.
\<close>

definition statm_MemoryInfo :: "64 word \<Rightarrow> 64 word \<Rightarrow> 64 word \<Rightarrow> MemoryInfoStat" where
  "statm_MemoryInfo page_size vm_pages rss_pages =
     \<lparr>mem_RSS = rss_pages * page_size, mem_VMS = vm_pages * page_size, mem_Swap = 0\<rparr>"

record probe =
  lsof_output :: "error + string"
  proc_net_dev :: "error + string"
  proc_mounts :: "error + string"
  connections :: "error + ConnectionStat list"
  cmdline :: "error + string"
  proc_attr_current :: "error + string"
  environ :: "error + string list"
  cpu_times :: "error + real \<times> real"
  memory_info :: "error + MemoryInfoStat"

section \<open>The other source adapters\<close>

text \<open>One round of the line loop of \<^verbatim>\<open>getContainerNetworkUsage\<close>, on the two totals.\<close>

definition net_line :: "go_int \<times> go_int \<Rightarrow> string \<Rightarrow> go_int \<times> go_int" where
  "net_line totals line =
     (case totals of (totalReceivedBytes, totalTransmittedBytes) \<Rightarrow>
        (let fields = Fields line in
         if 10 < length fields then
           (case Atoi (fields ! 1) of
              Inl err \<Rightarrow> (totalReceivedBytes, totalTransmittedBytes)
            | Inr receivedBytes \<Rightarrow>
                (case Atoi (fields ! 9) of
                   Inl err \<Rightarrow> (totalReceivedBytes, totalTransmittedBytes)
                 | Inr transmittedBytes \<Rightarrow>
                     (totalReceivedBytes + receivedBytes,
                      totalTransmittedBytes + transmittedBytes)))
         else (totalReceivedBytes, totalTransmittedBytes)))"

definition getContainerNetworkUsage :: "error + string \<Rightarrow> error + NetworkUsage" where
  "getContainerNetworkUsage file =
     (case file of
        Inl err \<Rightarrow> Inl err
      | Inr content \<Rightarrow>
          (case foldl net_line (0, 0) (Split content newline) of
             (totalReceivedBytes, totalTransmittedBytes) \<Rightarrow>
               Inr \<lparr>ReceivedBytes = totalReceivedBytes,
                    TransmittedBytes = totalTransmittedBytes\<rparr>))"

definition mounts_line :: "string list \<Rightarrow> string \<Rightarrow> string list" where
  "mounts_line volumes line =
     (let parts = Split line (CHR '' '') in
      if 2 < length parts then volumes @ [parts ! 1] else volumes)"

definition getContainerMountedVolumes :: "error + string \<Rightarrow> error + string list" where
  "getContainerMountedVolumes file =
     (case file of
        Inl err \<Rightarrow> Inl err
      | Inr fileContent \<Rightarrow> Inr (foldl mounts_line [] (Split fileContent newline)))"

definition getContainerExposedPorts :: "error + ConnectionStat list \<Rightarrow> error + go_int list" where
  "getContainerExposedPorts conns =
     (case conns of
        Inl err \<Rightarrow> Inl err
      | Inr stats \<Rightarrow>
          Inr (map (\<lambda>stat. ucast (conn_Laddr_Port stat))
                 (filter (\<lambda>stat. conn_Status stat = ''LISTEN'') stats)))"

definition getContainerStartCommand :: "error + string \<Rightarrow> error + string" where
  "getContainerStartCommand cmdl =
     (case cmdl of
        Inl err \<Rightarrow> Inl err
      | Inr cmd \<Rightarrow> Inr (TrimSpace cmd))"

definition getContainerSecurityProfiles :: "error + string \<Rightarrow> error + string list" where
  "getContainerSecurityProfiles file =
     (case file of
        Inl err \<Rightarrow> Inl err
      | Inr content \<Rightarrow> Inr (map TrimSpace (Split content (CHR '',''))))"

definition getEnvironmentVariables :: "error + string list \<Rightarrow> error + string list" where
  "getEnvironmentVariables env =
     (case env of
        Inl err \<Rightarrow> Inl err
      | Inr envsSlice \<Rightarrow> Inr envsSlice)"

definition getContainerCPUUsage :: "error + real \<times> real \<Rightarrow> error + real" where
  "getContainerCPUUsage cpuTimes =
     (case cpuTimes of
        Inl err \<Rightarrow> Inl err
      | Inr (user, system) \<Rightarrow> Inr ((user + system) * 100))"

definition getContainerSwapUsage :: "error + MemoryInfoStat \<Rightarrow> error + go_int" where
  "getContainerSwapUsage mem =
     (case mem of
        Inl err \<Rightarrow> Inl err
      | Inr memoryInfo \<Rightarrow> Inr (ucast (mem_Swap memoryInfo)))"

definition getContainerMemoryDetails :: "error + MemoryInfoStat \<Rightarrow> error + (string \<rightharpoonup> go_int)" where
  "getContainerMemoryDetails mem =
     (case mem of
        Inl err \<Rightarrow> Inl err
      | Inr memoryInfo \<Rightarrow>
          Inr (Map.empty(''RSS'' \<mapsto> ucast (mem_RSS memoryInfo),
                         ''VMS'' \<mapsto> ucast (mem_VMS memoryInfo))))"

text \<open>
  \<^verbatim>\<open>getContainerResourceUsage\<close> builds its result from the CPU usage and the memory
  details; the struct literal names no \<^verbatim>\<open>SwapUsage\<close>, which is therefore the zero value.
\<close>

definition getContainerResourceUsage :: "probe \<Rightarrow> error + ResourceUsage" where
  "getContainerResourceUsage p =
     (case getContainerCPUUsage (cpu_times p) of
        Inl err \<Rightarrow> Inl (Wrapped ''error getting CPU usage'' err)
      | Inr cpuUsage \<Rightarrow>
          (case getContainerMemoryDetails (memory_info p) of
             Inl err \<Rightarrow> Inl (Wrapped ''error getting memory usage'' err)
           | Inr memoryUsage \<Rightarrow>
               Inr \<lparr>CPUUsage = cpuUsage, MemoryUsage = memoryUsage, SwapUsage = 0\<rparr>))"

section \<open>The assembler\<close>

text \<open>
  \<^verbatim>\<open>PopulateContainer\<close> returns the adapters it invoked, in the order of invocation, the
  container as the call leaves it, and the error (\<open>None\<close> for \<^verbatim>\<open>nil\<close>). An adapter that
  fails returns a zero value beside its error, and the assignment stores that zero value
  in the field before the error is looked at.
\<close>

datatype adapter =
    GetOpenFiles
  | GetContainerNetworkUsage
  | GetContainerMountedVolumes
  | GetContainerExposedPorts
  | GetContainerStartCommand
  | GetContainerSecurityProfiles
  | GetEnvironmentVariables
  | GetContainerResourceUsage

definition PopulateContainer :: "probe \<Rightarrow> Container \<Rightarrow> adapter list \<times> Container \<times> error option" where
  "PopulateContainer p c =
  (case getOpenFiles (lsof_output p) of
     Inl err \<Rightarrow>
       ([GetOpenFiles], c\<lparr>OpenFiles := []\<rparr>,
        Some (Wrapped ''failed to get open files'' err))
   | Inr v1 \<Rightarrow>
  (case getContainerNetworkUsage (proc_net_dev p) of
     Inl err \<Rightarrow>
       ([GetOpenFiles, GetContainerNetworkUsage],
        c\<lparr>OpenFiles := v1, NetworkUsage := NetworkUsage_zero\<rparr>,
        Some (Wrapped ''failed to get network usage'' err))
   | Inr v2 \<Rightarrow>
  (case getContainerMountedVolumes (proc_mounts p) of
     Inl err \<Rightarrow>
       ([GetOpenFiles, GetContainerNetworkUsage, GetContainerMountedVolumes],
        c\<lparr>OpenFiles := v1, NetworkUsage := v2, MountedVolumes := []\<rparr>,
        Some (Wrapped ''failed to get mounted volumes'' err))
   | Inr v3 \<Rightarrow>
  (case getContainerExposedPorts (connections p) of
     Inl err \<Rightarrow>
       ([GetOpenFiles, GetContainerNetworkUsage, GetContainerMountedVolumes,
         GetContainerExposedPorts],
        c\<lparr>OpenFiles := v1, NetworkUsage := v2, MountedVolumes := v3, ExposedPorts := []\<rparr>,
        Some (Wrapped ''failed to get exposed ports'' err))
   | Inr v4 \<Rightarrow>
  (case getContainerStartCommand (cmdline p) of
     Inl err \<Rightarrow>
       ([GetOpenFiles, GetContainerNetworkUsage, GetContainerMountedVolumes,
         GetContainerExposedPorts, GetContainerStartCommand],
        c\<lparr>OpenFiles := v1, NetworkUsage := v2, MountedVolumes := v3, ExposedPorts := v4,
          StartCommand := []\<rparr>,
        Some (Wrapped ''failed to get start command'' err))
   | Inr v5 \<Rightarrow>
  (case getContainerSecurityProfiles (proc_attr_current p) of
     Inl err \<Rightarrow>
       ([GetOpenFiles, GetContainerNetworkUsage, GetContainerMountedVolumes,
         GetContainerExposedPorts, GetContainerStartCommand, GetContainerSecurityProfiles],
        c\<lparr>OpenFiles := v1, NetworkUsage := v2, MountedVolumes := v3, ExposedPorts := v4,
          StartCommand := v5, SecurityProfiles := []\<rparr>,
        Some (Wrapped ''failed to get security profiles'' err))
   | Inr v6 \<Rightarrow>
  (case getEnvironmentVariables (environ p) of
     Inl err \<Rightarrow>
       ([GetOpenFiles, GetContainerNetworkUsage, GetContainerMountedVolumes,
         GetContainerExposedPorts, GetContainerStartCommand, GetContainerSecurityProfiles,
         GetEnvironmentVariables],
        c\<lparr>OpenFiles := v1, NetworkUsage := v2, MountedVolumes := v3, ExposedPorts := v4,
          StartCommand := v5, SecurityProfiles := v6, EnvVariables := []\<rparr>,
        Some (Wrapped ''failed to get environment variables'' err))
   | Inr v7 \<Rightarrow>
  (case getContainerResourceUsage p of
     Inl err \<Rightarrow>
       ([GetOpenFiles, GetContainerNetworkUsage, GetContainerMountedVolumes,
         GetContainerExposedPorts, GetContainerStartCommand, GetContainerSecurityProfiles,
         GetEnvironmentVariables, GetContainerResourceUsage],
        c\<lparr>OpenFiles := v1, NetworkUsage := v2, MountedVolumes := v3, ExposedPorts := v4,
          StartCommand := v5, SecurityProfiles := v6, EnvVariables := v7,
          ResourceUsage := ResourceUsage_zero\<rparr>,
        Some (Wrapped ''failed to get resource usage'' err))
   | Inr v8 \<Rightarrow>
       ([GetOpenFiles, GetContainerNetworkUsage, GetContainerMountedVolumes,
         GetContainerExposedPorts, GetContainerStartCommand, GetContainerSecurityProfiles,
         GetEnvironmentVariables, GetContainerResourceUsage],
        c\<lparr>OpenFiles := v1, NetworkUsage := v2, MountedVolumes := v3, ExposedPorts := v4,
          StartCommand := v5, SecurityProfiles := v6, EnvVariables := v7,
          ResourceUsage := v8\<rparr>,
        None)))))))))"

section \<open>The cache, discovery and the refresher\<close>

text \<open>
  The package-level state: the cache map and the time of the last refresh. Times are
  nanoseconds on one clock, as integers; the zero \<^verbatim>\<open>time.Time\<close> the program starts with
  lies far in the past. The lock is not modelled: each operation below runs alone, from
  the state it is given to the state it returns.
\<close>

record cache_state =
  containerCache :: "string \<rightharpoonup> Container"
  lastRefreshed :: int

definition Second :: int where
  "Second = 1000000000"

text \<open>
  What the world answers during one call of \<^verbatim>\<open>GetContainers\<close>: the clock when
  \<^verbatim>\<open>time.Since\<close> is evaluated, the order in which \<^verbatim>\<open>range\<close> walks the cache map (Go
  leaves it unspecified), the result of the runc command, the JSON decoder's reading of an
  output, the probe of the \<open>n\<close>-th call of \<^verbatim>\<open>PopulateContainer\<close>, and the clock when
  \<^verbatim>\<open>time.Now\<close> stamps the refresh. The order of the walk is meant to list each key of
  the map once; a key it lists that the map lacks yields nothing.
\<close>

record world =
  clock_check :: int
  range_order :: "string list"
  runc_list :: "error + string"
  json_Unmarshal :: "string \<Rightarrow> error + Container list"
  probes :: "nat \<Rightarrow> probe"
  clock_stamp :: int

text \<open>
  The external invocations an operation performs, in order: the runc command, and the
  adapters run for the \<open>n\<close>-th populated container (with its pid).
\<close>

datatype call =
    RuncList
  | AdapterCall nat go_int adapter

text \<open>The snapshot loop over the cache map, walking the keys in the given order.\<close>

definition cachedContainers :: "string list \<Rightarrow> (string \<rightharpoonup> Container) \<Rightarrow> Container list" where
  "cachedContainers order cache = List.map_filter cache order"

text \<open>The loop \<^verbatim>\<open>containerCache[strconv.Itoa(container.PID)] = container\<close>.\<close>

definition store :: "(string \<rightharpoonup> Container) \<Rightarrow> Container \<Rightarrow> (string \<rightharpoonup> Container)" where
  "store cache container = cache(Itoa (Container.PID container) \<mapsto> container)"

definition store_all :: "(string \<rightharpoonup> Container) \<Rightarrow> Container list \<Rightarrow> (string \<rightharpoonup> Container)" where
  "store_all cache containers = foldl store cache containers"

text \<open>
  The loop \<^verbatim>\<open>containers[i].PopulateContainer()\<close> of \<^verbatim>\<open>GetContainers\<close>: it returns at the
  first error.
\<close>

fun populate_all :: "(nat \<Rightarrow> probe) \<Rightarrow> nat \<Rightarrow> Container list \<Rightarrow> (error + Container list) \<times> call list" where
  "populate_all ps i [] = (Inr [], [])"
| "populate_all ps i (c # cs) =
     (case PopulateContainer (ps i) c of
        (adapters, c', Some err) \<Rightarrow> (Inl err, map (AdapterCall i (Container.PID c)) adapters)
      | (adapters, c', None) \<Rightarrow>
          (case populate_all ps (Suc i) cs of
             (Inl err, calls) \<Rightarrow>
               (Inl err, map (AdapterCall i (Container.PID c)) adapters @ calls)
           | (Inr cs', calls) \<Rightarrow>
               (Inr (c' # cs'), map (AdapterCall i (Container.PID c)) adapters @ calls)))"

definition GetContainers :: "world \<Rightarrow> bool \<Rightarrow> cache_state \<Rightarrow> (error + Container list) \<times> cache_state \<times> call list" where
  "GetContainers w populate s =
     (if clock_check w - lastRefreshed s < 10 * Second
      then (Inr (cachedContainers (range_order w) (containerCache s)), s, [])
      else
        (case runc_list w of
           Inl err \<Rightarrow> (Inl (Wrapped ''error executing runc command'' err), s, [RuncList])
         | Inr out \<Rightarrow>
             if length out = 0 then (Inl (ErrorsNew ''runc output is empty''), s, [RuncList])
             else
               (case json_Unmarshal w out of
                  Inl err \<Rightarrow>
                    (Inl (Wrapped ''failed to unmarshal the runc output'' err), s, [RuncList])
                | Inr containers \<Rightarrow>
                    (case (if populate then populate_all (probes w) 0 containers
                           else (Inr containers, [])) of
                       (Inl err, calls) \<Rightarrow> (Inl err, s, RuncList # calls)
                     | (Inr containers', calls) \<Rightarrow>
                         (Inr containers',
                          \<lparr>containerCache = store_all Map.empty containers',
                           lastRefreshed = clock_stamp w\<rparr>,
                          RuncList # calls)))))"

text \<open>
  One tick of the goroutine started by \<^verbatim>\<open>StartCacheRefresh\<close>; \<open>now\<close> is the clock when the
  tick stamps the refresh. The goroutine runs the ticks one after the other, each in its
  own world.
\<close>

definition StartCacheRefresh_tick :: "world \<Rightarrow> int \<Rightarrow> cache_state \<Rightarrow> cache_state \<times> call list" where
  "StartCacheRefresh_tick w now s =
     (case GetContainers w True s of
        (Inl err, s', calls) \<Rightarrow> (s', calls)
      | (Inr containers, s', calls) \<Rightarrow>
          (\<lparr>containerCache = store_all (containerCache s') containers,
            lastRefreshed = now\<rparr>,
           calls))"

fun StartCacheRefresh_ticks :: "(world \<times> int) list \<Rightarrow> cache_state \<Rightarrow> cache_state \<times> call list list" where
  "StartCacheRefresh_ticks [] s = (s, [])"
| "StartCacheRefresh_ticks ((w, now) # ticks) s =
     (case StartCacheRefresh_tick w now s of
        (s', calls) \<Rightarrow>
          (case StartCacheRefresh_ticks ticks s' of
             (s'', callss) \<Rightarrow> (s'', calls # callss)))"

text \<open>
  \<^verbatim>\<open>GetContainerByID\<close>; \<open>since\<close> is the clock when its own \<^verbatim>\<open>time.Since\<close> is evaluated and
  \<open>now\<close> the clock of its \<^verbatim>\<open>time.Now\<close>. The variable \<^verbatim>\<open>container\<close> read from the map is the
  cached value, or the zero value if the key is absent; the loop's variable of the same
  name shadows it inside the loop only.
\<close>

definition GetContainerByID :: "int \<Rightarrow> world \<Rightarrow> int \<Rightarrow> string \<Rightarrow> cache_state \<Rightarrow> (error + Container) \<times> cache_state \<times> call list" where
  "GetContainerByID since w now pid s =
     (let container = (case containerCache s pid of None \<Rightarrow> Container_zero | Some c \<Rightarrow> c);
          exists = (containerCache s pid \<noteq> None)
      in if exists \<and> since - lastRefreshed s < 20 * Second then (Inr container, s, [])
         else
           (case Atoi pid of
              Inl err \<Rightarrow> (Inl (Wrapped ''invalid PID format'' err), s, [])
            | Inr pidInt \<Rightarrow>
                (case GetContainers w False s of
                   (Inl err, s', calls) \<Rightarrow> (Inl err, s', calls)
                 | (Inr containers, s', calls) \<Rightarrow>
                     (case find (\<lambda>c. Container.PID c = pidInt) containers of
                        Some found \<Rightarrow>
                          (case PopulateContainer (probes w 0) found of
                             (adapters, c', Some err) \<Rightarrow>
                               (Inl (Wrapped ''failed to populate container'' err), s',
                                calls @ map (AdapterCall 0 (Container.PID found)) adapters)
                           | (adapters, c', None) \<Rightarrow>
                               (Inr c', s',
                                calls @ map (AdapterCall 0 (Container.PID found)) adapters))
                      | None \<Rightarrow>
                          (Inr container,
                           \<lparr>containerCache = (containerCache s')(pid \<mapsto> container),
                            lastRefreshed = now\<rparr>,
                           calls)))))"

section \<open>The table of the user interface\<close>

text \<open>
  \<^verbatim>\<open>refreshTable\<close> either panics or returns with the table filled: the header row, then
  one row per container. \<open>created\<close> stands for \<^verbatim>\<open>time.Parse\<close> with the program's layout
  followed by \<^verbatim>\<open>Format\<close>: the formatted time, or the error of the parse.
\<close>

datatype 'a outcome =
    Panic error
  | Returned 'a

fun table_rows :: "(string \<Rightarrow> error + string) \<Rightarrow> Container list \<Rightarrow> string list list outcome" where
  "table_rows created [] = Returned []"
| "table_rows created (container # containers) =
     (case created (Created container) of
        Inl err \<Rightarrow> Panic err
      | Inr formatted \<Rightarrow>
          (case table_rows created containers of
             Panic err \<Rightarrow> Panic err
           | Returned rows \<Rightarrow>
               Returned ([Itoa (Container.PID container), Owner container, formatted,
                          Status container] # rows)))"

definition refreshTable :: "(string \<Rightarrow> error + string) \<Rightarrow> world \<Rightarrow> cache_state \<Rightarrow> string list list outcome \<times> cache_state \<times> call list" where
  "refreshTable created w s =
     (case GetContainers w True s of
        (Inl err, s', calls) \<Rightarrow> (Panic err, s', calls)
      | (Inr containers, s', calls) \<Rightarrow>
          (case table_rows created containers of
             Panic err \<Rightarrow> (Panic err, s', calls)
           | Returned rows \<Rightarrow>
               (Returned ([''PID'', ''Owner'', ''Created'', ''Status''] # rows), s', calls)))"

section \<open>What the specification says of the other parts\<close>

subsection \<open>Network usage\<close>

text \<open>
  The lines the specification counts: at least 11 white-space separated fields, of which
  the 2nd and the 10th parse as integers; and the two values such a line carries.
\<close>

definition parses_as_integer :: "string \<Rightarrow> bool" where
  "parses_as_integer f = (case Atoi f of Inl err \<Rightarrow> False | Inr v \<Rightarrow> True)"

definition integer_of :: "string \<Rightarrow> go_int" where
  "integer_of f = (case Atoi f of Inl err \<Rightarrow> 0 | Inr v \<Rightarrow> v)"

definition counted_line :: "string \<Rightarrow> bool" where
  "counted_line l \<longleftrightarrow>
     11 \<le> length (Fields l) \<and> parses_as_integer (Fields l ! 1) \<and> parses_as_integer (Fields l ! 9)"

definition received_bytes :: "string \<Rightarrow> go_int" where
  "received_bytes l = integer_of (Fields l ! 1)"

definition transmitted_bytes :: "string \<Rightarrow> go_int" where
  "transmitted_bytes l = integer_of (Fields l ! 9)"

subsection \<open>Memory usage\<close>

text \<open>
  The struct declares the memory usage, and the detail view prints it, in kB; this is
  the number of kB in a number of bytes.
\<close>

definition kB_of_bytes :: "64 word \<Rightarrow> go_int" where
  "kB_of_bytes b = b div 1024"

subsection \<open>The enrichment steps\<close>

text \<open>
  The fixed order of the adapters, the error (if any) each adapter returns on a probe,
  and the message that identifies each step.
\<close>

definition adapters_in_order :: "adapter list" where
  "adapters_in_order =
     [GetOpenFiles, GetContainerNetworkUsage, GetContainerMountedVolumes,
      GetContainerExposedPorts, GetContainerStartCommand, GetContainerSecurityProfiles,
      GetEnvironmentVariables, GetContainerResourceUsage]"

definition error_of :: "error + 'a \<Rightarrow> error option" where
  "error_of r = (case r of Inl err \<Rightarrow> Some err | Inr v \<Rightarrow> None)"

fun adapter_error :: "probe \<Rightarrow> adapter \<Rightarrow> error option" where
  "adapter_error p GetOpenFiles = error_of (getOpenFiles (lsof_output p))"
| "adapter_error p GetContainerNetworkUsage = error_of (getContainerNetworkUsage (proc_net_dev p))"
| "adapter_error p GetContainerMountedVolumes = error_of (getContainerMountedVolumes (proc_mounts p))"
| "adapter_error p GetContainerExposedPorts = error_of (getContainerExposedPorts (connections p))"
| "adapter_error p GetContainerStartCommand = error_of (getContainerStartCommand (cmdline p))"
| "adapter_error p GetContainerSecurityProfiles = error_of (getContainerSecurityProfiles (proc_attr_current p))"
| "adapter_error p GetEnvironmentVariables = error_of (getEnvironmentVariables (environ p))"
| "adapter_error p GetContainerResourceUsage = error_of (getContainerResourceUsage p)"

fun step_message :: "adapter \<Rightarrow> string" where
  "step_message GetOpenFiles = ''failed to get open files''"
| "step_message GetContainerNetworkUsage = ''failed to get network usage''"
| "step_message GetContainerMountedVolumes = ''failed to get mounted volumes''"
| "step_message GetContainerExposedPorts = ''failed to get exposed ports''"
| "step_message GetContainerStartCommand = ''failed to get start command''"
| "step_message GetContainerSecurityProfiles = ''failed to get security profiles''"
| "step_message GetEnvironmentVariables = ''failed to get environment variables''"
| "step_message GetContainerResourceUsage = ''failed to get resource usage''"

section \<open>Sample inputs\<close>

text \<open>
  A probe on which every external mechanism answers; the process has 4 pages of 4096 bytes,
  2 of them resident.
\<close>

definition probe_ok :: probe where
  "probe_ok =
     \<lparr>lsof_output = Inr ''p1'', proc_net_dev = Inr [], proc_mounts = Inr [],
      connections = Inr [], cmdline = Inr ''sh'', proc_attr_current = Inr ''unconfined'',
      environ = Inr [], cpu_times = Inr (1, 2),
      memory_info = Inr (statm_MemoryInfo 4096 4 2)\<rparr>"

text \<open>
  A bare container as discovery decodes it, and a world in which the runc command lists
  the given containers: the clock reads \<open>t\<close>, the cache map is walked in the given order,
  and the \<open>n\<close>-th populated container meets the probe \<open>ps n\<close>.
\<close>

definition bare :: "go_int \<Rightarrow> Container" where
  "bare pid =
     Container_zero\<lparr>ID := ''container'', Container.PID := pid, Status := ''running'',
       Created := ''2024-01-01T00:00:00Z''\<rparr>"

definition world_at :: "int \<Rightarrow> string list \<Rightarrow> Container list \<Rightarrow> (nat \<Rightarrow> probe) \<Rightarrow> world" where
  "world_at t order listed ps =
     \<lparr>clock_check = t, range_order = order, runc_list = Inr ''[{}]'',
      json_Unmarshal = (\<lambda>out. Inr listed), probes = ps, clock_stamp = t\<rparr>"

text \<open>A probe on which lsof fails, as for a process that has exited.\<close>

definition probe_gone :: probe where
  "probe_gone = probe_ok\<lparr>lsof_output := Inl (Opaque ''exit status 1'')\<rparr>"

text \<open>Every process answers; and: the first process answers, the later ones have exited.\<close>

definition all_ok :: "nat \<Rightarrow> probe" where
  "all_ok n = probe_ok"

definition first_ok :: "nat \<Rightarrow> probe" where
  "first_ok n = (if n = 0 then probe_ok else probe_gone)"

text \<open>The container that population on \<^const>\<open>probe_ok\<close> makes of a bare one.\<close>

definition populated_ok :: "Container \<Rightarrow> Container" where
  "populated_ok c = fst (snd (PopulateContainer probe_ok c))"

text \<open>The state the program starts in: an empty cache and the zero time (year 1).\<close>

definition initial_state :: cache_state where
  "initial_state = \<lparr>containerCache = Map.empty, lastRefreshed = - 62135596800 * Second\<rparr>"

section \<open>The open-files parser\<close>

lemma Split_not_Nil: "Split s sep \<noteq> []"
  by (induction s) (auto split: list.splits)

lemma Split_Join:
  "ls \<noteq> [] \<Longrightarrow> \<forall>l \<in> set ls. sep \<notin> set l \<Longrightarrow> Split (Join ls sep) sep = ls"
proof (induction ls sep rule: Join.induct)
  case (1 sep) then show ?case by simp
next
  case (2 l sep)
  then show ?case by (induction l) (auto split: list.splits)
next
  case (3 l l' ls sep)
  then have IH: "Split (Join (l' # ls) sep) sep = l' # ls" by simp
  from 3(3) have "sep \<notin> set l" by simp
  then show ?case using IH by (induction l) (auto split: list.splits)
qed

lemma tag_value_or_Nil: "tag_value_or t [] d = d" by (simp add: tag_value_or_def)
lemma tag_value_or_Cons: "tag_value_or t (l # body) d = tag_value_or t body (if 1 < length l \<and> hd l = t then tl l else d)"
  by (auto simp: tag_value_or_def split: list.splits)
lemma tag_value_or_empty: "tag_value_or t body [] = tag_value t body"
  by (simp add: tag_value_or_def tag_value_def)

lemma body_loop:
  "\<forall>l \<in> set body. \<not> p_line l \<Longrightarrow>
   foldl lsof_line (es, e) body =
     (es, \<lparr>Command = tag_value_or (CHR ''c'') body (LsofOutput.Command e),
       PID = LsofOutput.PID e,
       User = tag_value_or (CHR ''u'') body (LsofOutput.User e),
       FD = tag_value_or (CHR ''f'') body (LsofOutput.FD e),
       Type = tag_value_or (CHR ''t'') body (LsofOutput.Type e),
       Device = tag_value_or (CHR ''D'') body (LsofOutput.Device e),
       SizeOff = tag_value_or (CHR ''s'') body (LsofOutput.SizeOff e),
       Node = tag_value_or (CHR ''i'') body (LsofOutput.Node e),
       Name = tag_value_or (CHR ''n'') body (LsofOutput.Name e)\<rparr>)"
proof (induction body arbitrary: e)
  case Nil
  then show ?case by (simp add: tag_value_or_Nil)
next
  case (Cons l body)
  then show ?case
    by (simp add: tag_value_or_Cons lsof_line_def p_line_def)
qed

lemma ignored_loop: "\<forall>l \<in> set pre. ignored_line l \<Longrightarrow> foldl lsof_line st pre = st"
proof (induction pre arbitrary: st)
  case Nil then show ?case by simp
next
  case (Cons l pre)
  have "lsof_line st l = st"
  proof (cases "1 < length l")
    case False
    then show ?thesis by (cases st) (simp add: lsof_line_def)
  next
    case True
    with Cons.prems have "hd l \<notin> set ''pcuftDsin''"
      by (simp add: ignored_line_def)
    then show ?thesis by (cases st) (simp add: lsof_line_def)
  qed
  then show ?case using Cons by simp
qed

lemma group_first:
  assumes "well_formed_group g"
  shows "foldl lsof_line (es, LsofOutput_zero) (group_lines g) = (es, group_record g)"
proof -
  have "lsof_line (es, LsofOutput_zero) (CHR ''p'' # fst g)
          = (es, LsofOutput_zero\<lparr>LsofOutput.PID := fst g\<rparr>)"
    using assms by (cases "fst g") (simp_all add: lsof_line_def well_formed_group_def LsofOutput_zero_def)
  moreover have "\<forall>l \<in> set (snd g). \<not> p_line l"
    using assms by (simp add: well_formed_group_def)
  ultimately show ?thesis
    by (simp add: group_lines_def body_loop tag_value_or_empty group_record_def LsofOutput_zero_def)
qed

lemma group_next:
  assumes "well_formed_group g" and "LsofOutput.PID e \<noteq> []"
  shows "foldl lsof_line (es, e) (group_lines g) = (es @ [e], group_record g)"
proof -
  have "lsof_line (es, e) (CHR ''p'' # fst g)
          = (es @ [e], LsofOutput_zero\<lparr>LsofOutput.PID := fst g\<rparr>)"
    using assms by (cases "fst g") (simp_all add: lsof_line_def well_formed_group_def)
  moreover have "\<forall>l \<in> set (snd g). \<not> p_line l"
    using assms by (simp add: well_formed_group_def)
  ultimately show ?thesis
    by (simp add: group_lines_def body_loop tag_value_or_empty group_record_def LsofOutput_zero_def)
qed

lemma PID_group_record: "well_formed_group g \<Longrightarrow> LsofOutput.PID (group_record g) \<noteq> []"
  by (simp add: group_record_def well_formed_group_def)

lemma groups_rest:
  "\<forall>g \<in> set gs. well_formed_group g \<Longrightarrow> LsofOutput.PID e \<noteq> [] \<Longrightarrow>
   (case foldl lsof_line (es, e) (concat (map group_lines gs)) of (entries, entry) \<Rightarrow>
      if LsofOutput.PID entry \<noteq> [] then entries @ [entry] else entries)
     = es @ e # map group_record gs"
proof (induction gs arbitrary: es e)
  case Nil then show ?case by simp
next
  case (Cons g gs)
  then show ?case by (simp add: group_next PID_group_record)
qed

lemma lsof_lines_groups:
  assumes "\<forall>l \<in> set pre. ignored_line l" and "\<forall>g \<in> set gs. well_formed_group g"
  shows "lsof_lines (pre @ concat (map group_lines gs)) = map group_record gs"
proof (cases gs)
  case Nil
  then show ?thesis using assms by (simp add: lsof_lines_def ignored_loop LsofOutput_zero_def)
next
  case (Cons g gs')
  then show ?thesis using assms
    by (simp add: lsof_lines_def ignored_loop group_first groups_rest PID_group_record)
qed

lemma lsof_lines_empty_text: "lsof_lines [[]] = []"
  by (simp add: lsof_lines_def lsof_line_def LsofOutput_zero_def)

lemma newline_free_block:
  assumes "\<forall>l \<in> set pre. newline \<notin> set l" and "\<forall>g \<in> set gs. well_formed_group g"
  shows "\<forall>l \<in> set (pre @ concat (map group_lines gs)). newline \<notin> set l"
  using assms by (auto simp: group_lines_def well_formed_group_def newline_def)

text \<open>
  Claim C5. A well-formed tagged block is a sequence of N groups, each a \<open>p\<close> line with
  a value followed by lines that are not \<open>p\<close> lines, possibly after lines the parser
  ignores. On the text of such a block (its lines joined by line feeds) the open-files
  parser returns exactly N records, the \<open>k\<close>-th with the pid of the \<open>k\<close>-th group and
  every other field taken from that group's line with the field's tag (empty if the group
  has none). The last group needs no \<open>p\<close> line after it to be emitted, and a line of
  length at most 1 changes nothing.
\<close>

theorem lsof_parser_groups:
  assumes "\<forall>l \<in> set pre. ignored_line l \<and> newline \<notin> set l"
      and "\<forall>g \<in> set gs. well_formed_group g"
  shows "getOpenFiles (Inr (Join (pre @ concat (map group_lines gs)) newline))
           = Inr (map group_record gs)
         \<and> length (map group_record gs) = length gs
         \<and> (\<forall>st l. length l \<le> 1 \<longrightarrow> lsof_line st l = st)"
proof -
  let ?ls = "pre @ concat (map group_lines gs)"
  have nl: "\<forall>l \<in> set ?ls. newline \<notin> set l"
    using assms by (intro newline_free_block) simp_all
  have "lsof_lines (Split (Join ?ls newline) newline) = map group_record gs"
  proof (cases "?ls = []")
    case True
    then have "gs = []" by (cases gs) (simp_all add: group_lines_def)
    with True show ?thesis by (simp add: lsof_lines_empty_text)
  next
    case False
    then have "Split (Join ?ls newline) newline = ?ls"
      using nl by (rule Split_Join)
    then show ?thesis using assms by (simp add: lsof_lines_groups)
  qed
  moreover have "\<forall>st l. length l \<le> 1 \<longrightarrow> lsof_line st l = st"
    by (auto simp: lsof_line_def)
  ultimately show ?thesis by (simp add: getOpenFiles_def)
qed

theorem lsof_parser_groups_witness:
  "getOpenFiles (Inr (''lsof: no pwd entry for UID 70'' @ [newline] @ ''p12'' @ [newline] @ ''cbash'' @ [newline] @
       ''f1'' @ [newline] @ ''n/dev/null'' @ [newline] @ ''f2'' @ [newline] @ ''n/tmp/x'' @ [newline] @ ''p13'' @ [newline] @ ''csh'' @ [newline]))
     = Inr [\<lparr>Command = ''bash'', PID = ''12'', User = [], FD = ''2'', Type = [], Device = [],
              SizeOff = [], Node = [], Name = ''/tmp/x''\<rparr>,
            \<lparr>Command = ''sh'', PID = ''13'', User = [], FD = [], Type = [], Device = [],
              SizeOff = [], Node = [], Name = []\<rparr>]"
  using lsof_parser_groups [of "[''lsof: no pwd entry for UID 70'']"
      "[(''12'', [''cbash'', ''f1'', ''n/dev/null'', ''f2'', ''n/tmp/x'']), (''13'', [''csh'', ''''])]"]
  by (simp add: ignored_line_def well_formed_group_def p_line_def newline_def group_lines_def
      group_record_def tag_value_def)

section \<open>The network-usage parser\<close>

text \<open>White space beyond ASCII separates fields and is trimmed, as in Go.\<close>

lemma TrimSpace_unicode:
  "TrimSpace ([CHR 0xC2, CHR 0xA0] @ '' /bin/sh -c x '' @ [CHR 0xE3, CHR 0x80, CHR 0x80, CHR 0x0A])
   = ''/bin/sh -c x''"
  by (simp add: TrimSpace_def ascii_space_def space_rune2_def space_rune3_def)

lemma net_line_counted:
  "counted_line l \<Longrightarrow> net_line (rx, tx) l = (rx + received_bytes l, tx + transmitted_bytes l)"
  by (auto simp: net_line_def counted_line_def parses_as_integer_def received_bytes_def
      transmitted_bytes_def integer_of_def Let_def split: sum.splits)

lemma net_line_not_counted:
  "\<not> counted_line l \<Longrightarrow> net_line (rx, tx) l = (rx, tx)"
  by (auto simp: net_line_def counted_line_def parses_as_integer_def Let_def split: sum.splits)

lemma net_loop:
  "foldl net_line (rx, tx) ls =
     (rx + sum_list (map received_bytes (filter counted_line ls)),
      tx + sum_list (map transmitted_bytes (filter counted_line ls)))"
proof (induction ls arbitrary: rx tx)
  case Nil
  then show ?case by simp
next
  case (Cons l ls)
  then show ?case
    by (cases "counted_line l") (simp_all add: net_line_counted net_line_not_counted add.assoc)
qed

lemma Fields_no_break_space:
  "Fields (''lo:'' @ [CHR 0xC2, CHR 0xA0] @ ''1234 10 0 0 0 0 0 0 5678 10 0 0 0 0 0 0'') =
     [''lo:'', ''1234'', ''10'', ''0'', ''0'', ''0'', ''0'', ''0'', ''0'', ''5678'', ''10'',
      ''0'', ''0'', ''0'', ''0'', ''0'', ''0'']"
  by (simp add: Fields_def ascii_space_def space_rune2_def space_rune3_def)

lemma network_usage_no_break_space:
  "getContainerNetworkUsage
     (Inr (''lo:'' @ [CHR 0xC2, CHR 0xA0] @ ''1234 10 0 0 0 0 0 0 5678 10 0 0 0 0 0 0''))
   = Inr \<lparr>ReceivedBytes = 1234, TransmittedBytes = 5678\<rparr>"
proof -
  let ?l = "''lo:'' @ [CHR 0xC2, CHR 0xA0] @ ''1234 10 0 0 0 0 0 0 5678 10 0 0 0 0 0 0''"
  have a1: "Atoi ''1234'' = Inr 1234" and a9: "Atoi ''5678'' = Inr 5678"
    by (simp_all add: Atoi_def is_digit_def digits_value_def)
  have s: "Split ?l newline = [?l]"
    using Split_Join [of "[?l]" newline] by (simp add: newline_def)
  have g: "counted_line ?l"
    unfolding counted_line_def Fields_no_break_space by (simp add: parses_as_integer_def a1 a9)
  have v: "received_bytes ?l = 1234" "transmitted_bytes ?l = 5678"
    unfolding received_bytes_def transmitted_bytes_def Fields_no_break_space
    by (simp_all add: integer_of_def a1 a9)
  have "net_line (0, 0) ?l = (0 + received_bytes ?l, 0 + transmitted_bytes ?l)"
    using g by (rule net_line_counted)
  then have "foldl net_line (0, 0) (Split ?l newline) = (1234, 5678)"
    unfolding s v by (simp only: foldl_Cons foldl_Nil add_0)
  then show ?thesis
    unfolding getContainerNetworkUsage_def sum.case by (simp only: prod.case)
qed

text \<open>
  Claim C6. For every text of the net/dev pseudo-file, the network-usage parser returns
  the sum of the 2nd fields and the sum of the 10th fields over exactly the lines that
  have at least 11 white-space separated fields of which the 2nd and the 10th parse as
  integers; every other line contributes nothing. The sums are those of Go's \<^verbatim>\<open>int\<close>
  (64 bits). In particular a text made of a header line, a malformed line and a
  well-formed line yields the two values of the well-formed line.
\<close>

theorem network_usage_sums:
  "getContainerNetworkUsage (Inr content) =
     Inr \<lparr>ReceivedBytes = sum_list (map received_bytes (filter counted_line (Split content newline))),
          TransmittedBytes = sum_list (map transmitted_bytes (filter counted_line (Split content newline)))\<rparr>
   \<and> (\<not> counted_line header \<and> \<not> counted_line malformed \<and> counted_line good \<and>
        newline \<notin> set header \<and> newline \<notin> set malformed \<and> newline \<notin> set good \<longrightarrow>
        getContainerNetworkUsage (Inr (Join [header, malformed, good] newline)) =
          Inr \<lparr>ReceivedBytes = received_bytes good, TransmittedBytes = transmitted_bytes good\<rparr>)"
proof -
  have general: "getContainerNetworkUsage (Inr s) =
     Inr \<lparr>ReceivedBytes = sum_list (map received_bytes (filter counted_line (Split s newline))),
          TransmittedBytes = sum_list (map transmitted_bytes (filter counted_line (Split s newline)))\<rparr>"
    for s
    by (simp add: getContainerNetworkUsage_def net_loop)
  have "Split (Join [header, malformed, good] newline) newline = [header, malformed, good]"
    if "newline \<notin> set header" "newline \<notin> set malformed" "newline \<notin> set good"
    using that by (intro Split_Join) simp_all
  then show ?thesis
    unfolding general by simp
qed

theorem network_usage_sums_witness:
  "getContainerNetworkUsage
     (Inr (''Inter-| Receive | Transmit'' @ [newline] @ ''eth0: 77 no data'' @ [newline] @
           ''lo: 1234 10 0 0 0 0 0 0 5678 10 0 0 0 0 0 0''))
   = Inr \<lparr>ReceivedBytes = 1234, TransmittedBytes = 5678\<rparr>"
proof -
  have h: "\<not> counted_line ''Inter-| Receive | Transmit''"
    by (simp add: counted_line_def Fields_def ascii_space_def space_rune2_def space_rune3_def)
  have m: "\<not> counted_line ''eth0: 77 no data''"
    by (simp add: counted_line_def Fields_def ascii_space_def space_rune2_def space_rune3_def)
  have f: "Fields ''lo: 1234 10 0 0 0 0 0 0 5678 10 0 0 0 0 0 0'' =
      [''lo:'', ''1234'', ''10'', ''0'', ''0'', ''0'', ''0'', ''0'', ''0'', ''5678'', ''10'',
       ''0'', ''0'', ''0'', ''0'', ''0'', ''0'']"
    by (simp add: Fields_def ascii_space_def space_rune2_def space_rune3_def)
  have a1: "Atoi ''1234'' = Inr 1234" and a9: "Atoi ''5678'' = Inr 5678"
    by (simp_all add: Atoi_def is_digit_def digits_value_def)
  have g: "counted_line ''lo: 1234 10 0 0 0 0 0 0 5678 10 0 0 0 0 0 0''"
    unfolding counted_line_def f by (simp add: parses_as_integer_def a1 a9)
  have v: "received_bytes ''lo: 1234 10 0 0 0 0 0 0 5678 10 0 0 0 0 0 0'' = 1234"
          "transmitted_bytes ''lo: 1234 10 0 0 0 0 0 0 5678 10 0 0 0 0 0 0'' = 5678"
    unfolding received_bytes_def transmitted_bytes_def f by (simp_all add: integer_of_def a1 a9)
  show ?thesis
    using network_usage_sums [of _ "''Inter-| Receive | Transmit''" "''eth0: 77 no data''"
        "''lo: 1234 10 0 0 0 0 0 0 5678 10 0 0 0 0 0 0''"] h m g v
    by (simp add: newline_def)
qed

section \<open>The assembler stops at the first error\<close>

lemma PopulateContainer_fails_1:
  assumes "getOpenFiles (lsof_output p) = Inl err"
  shows "fst (PopulateContainer p c) = [GetOpenFiles]"
    and "snd (snd (PopulateContainer p c)) = Some (Wrapped ''failed to get open files'' err)"
  using assms by (simp_all add: PopulateContainer_def)

lemma PopulateContainer_fails_2:
  assumes "getOpenFiles (lsof_output p) = Inr v1" and "getContainerNetworkUsage (proc_net_dev p) = Inl err"
  shows "fst (PopulateContainer p c) = [GetOpenFiles, GetContainerNetworkUsage]"
    and "snd (snd (PopulateContainer p c)) = Some (Wrapped ''failed to get network usage'' err)"
  using assms by (simp_all add: PopulateContainer_def)

lemma PopulateContainer_fails_3:
  assumes "getOpenFiles (lsof_output p) = Inr v1" and "getContainerNetworkUsage (proc_net_dev p) = Inr v2" and "getContainerMountedVolumes (proc_mounts p) = Inl err"
  shows "fst (PopulateContainer p c) = [GetOpenFiles, GetContainerNetworkUsage, GetContainerMountedVolumes]"
    and "snd (snd (PopulateContainer p c)) = Some (Wrapped ''failed to get mounted volumes'' err)"
  using assms by (simp_all add: PopulateContainer_def)

lemma PopulateContainer_fails_4:
  assumes "getOpenFiles (lsof_output p) = Inr v1" and "getContainerNetworkUsage (proc_net_dev p) = Inr v2" and "getContainerMountedVolumes (proc_mounts p) = Inr v3" and "getContainerExposedPorts (connections p) = Inl err"
  shows "fst (PopulateContainer p c) = [GetOpenFiles, GetContainerNetworkUsage, GetContainerMountedVolumes, GetContainerExposedPorts]"
    and "snd (snd (PopulateContainer p c)) = Some (Wrapped ''failed to get exposed ports'' err)"
  using assms by (simp_all add: PopulateContainer_def)

lemma PopulateContainer_fails_5:
  assumes "getOpenFiles (lsof_output p) = Inr v1" and "getContainerNetworkUsage (proc_net_dev p) = Inr v2" and "getContainerMountedVolumes (proc_mounts p) = Inr v3" and "getContainerExposedPorts (connections p) = Inr v4" and "getContainerStartCommand (cmdline p) = Inl err"
  shows "fst (PopulateContainer p c) = [GetOpenFiles, GetContainerNetworkUsage, GetContainerMountedVolumes, GetContainerExposedPorts, GetContainerStartCommand]"
    and "snd (snd (PopulateContainer p c)) = Some (Wrapped ''failed to get start command'' err)"
  using assms by (simp_all add: PopulateContainer_def)

lemma PopulateContainer_fails_6:
  assumes "getOpenFiles (lsof_output p) = Inr v1" and "getContainerNetworkUsage (proc_net_dev p) = Inr v2" and "getContainerMountedVolumes (proc_mounts p) = Inr v3" and "getContainerExposedPorts (connections p) = Inr v4" and "getContainerStartCommand (cmdline p) = Inr v5" and "getContainerSecurityProfiles (proc_attr_current p) = Inl err"
  shows "fst (PopulateContainer p c) = [GetOpenFiles, GetContainerNetworkUsage, GetContainerMountedVolumes, GetContainerExposedPorts, GetContainerStartCommand, GetContainerSecurityProfiles]"
    and "snd (snd (PopulateContainer p c)) = Some (Wrapped ''failed to get security profiles'' err)"
  using assms by (simp_all add: PopulateContainer_def)

lemma PopulateContainer_fails_7:
  assumes "getOpenFiles (lsof_output p) = Inr v1" and "getContainerNetworkUsage (proc_net_dev p) = Inr v2" and "getContainerMountedVolumes (proc_mounts p) = Inr v3" and "getContainerExposedPorts (connections p) = Inr v4" and "getContainerStartCommand (cmdline p) = Inr v5" and "getContainerSecurityProfiles (proc_attr_current p) = Inr v6" and "getEnvironmentVariables (environ p) = Inl err"
  shows "fst (PopulateContainer p c) = [GetOpenFiles, GetContainerNetworkUsage, GetContainerMountedVolumes, GetContainerExposedPorts, GetContainerStartCommand, GetContainerSecurityProfiles, GetEnvironmentVariables]"
    and "snd (snd (PopulateContainer p c)) = Some (Wrapped ''failed to get environment variables'' err)"
  using assms by (simp_all add: PopulateContainer_def)

lemma PopulateContainer_fails_8:
  assumes "getOpenFiles (lsof_output p) = Inr v1" and "getContainerNetworkUsage (proc_net_dev p) = Inr v2" and "getContainerMountedVolumes (proc_mounts p) = Inr v3" and "getContainerExposedPorts (connections p) = Inr v4" and "getContainerStartCommand (cmdline p) = Inr v5" and "getContainerSecurityProfiles (proc_attr_current p) = Inr v6" and "getEnvironmentVariables (environ p) = Inr v7" and "getContainerResourceUsage p = Inl err"
  shows "fst (PopulateContainer p c) = [GetOpenFiles, GetContainerNetworkUsage, GetContainerMountedVolumes, GetContainerExposedPorts, GetContainerStartCommand, GetContainerSecurityProfiles, GetEnvironmentVariables, GetContainerResourceUsage]"
    and "snd (snd (PopulateContainer p c)) = Some (Wrapped ''failed to get resource usage'' err)"
  using assms by (simp_all add: PopulateContainer_def)

lemma PopulateContainer_succeeds:
  assumes "getOpenFiles (lsof_output p) = Inr v1" and "getContainerNetworkUsage (proc_net_dev p) = Inr v2" and "getContainerMountedVolumes (proc_mounts p) = Inr v3" and "getContainerExposedPorts (connections p) = Inr v4" and "getContainerStartCommand (cmdline p) = Inr v5" and "getContainerSecurityProfiles (proc_attr_current p) = Inr v6" and "getEnvironmentVariables (environ p) = Inr v7" and "getContainerResourceUsage p = Inr v8"
  shows "fst (PopulateContainer p c) = [GetOpenFiles, GetContainerNetworkUsage, GetContainerMountedVolumes, GetContainerExposedPorts, GetContainerStartCommand, GetContainerSecurityProfiles, GetEnvironmentVariables, GetContainerResourceUsage]"
    and "snd (snd (PopulateContainer p c)) = None"
    and "fst (snd (PopulateContainer p c)) =
           c\<lparr>OpenFiles := v1, NetworkUsage := v2, MountedVolumes := v3, ExposedPorts := v4,
             StartCommand := v5, SecurityProfiles := v6, EnvVariables := v7, ResourceUsage := v8\<rparr>"
  using assms by (simp_all add: PopulateContainer_def)

lemma all_adapters: "(\<forall>a. P a) \<longleftrightarrow> (\<forall>a \<in> set adapters_in_order. P a)"
proof
  assume "\<forall>a. P a" then show "\<forall>a \<in> set adapters_in_order. P a" by simp
next
  assume h: "\<forall>a \<in> set adapters_in_order. P a"
  show "\<forall>a. P a"
  proof
    fix a show "P a" using h by (cases a) (simp_all add: adapters_in_order_def)
  qed
qed

lemma PopulateContainer_steps:
  "fst (PopulateContainer p c) =
     (case find (\<lambda>a. adapter_error p a \<noteq> None) adapters_in_order of
        None \<Rightarrow> adapters_in_order
      | Some a \<Rightarrow> takeWhile (\<lambda>b. adapter_error p b = None) adapters_in_order @ [a])
   \<and> snd (snd (PopulateContainer p c)) =
     (case find (\<lambda>a. adapter_error p a \<noteq> None) adapters_in_order of
        None \<Rightarrow> None
      | Some a \<Rightarrow> map_option (Wrapped (step_message a)) (adapter_error p a))
   \<and> (snd (snd (PopulateContainer p c)) = None \<longleftrightarrow> (\<forall>a \<in> set adapters_in_order. adapter_error p a = None))"
proof -
  show ?thesis
  proof (cases "getOpenFiles (lsof_output p)")
    case (Inl err)
    show ?thesis
      using Inl
      by (simp add: PopulateContainer_fails_1 [OF Inl] adapters_in_order_def error_of_def)
  next
    case a1: (Inr v1)
    show ?thesis
    proof (cases "getContainerNetworkUsage (proc_net_dev p)")
      case (Inl err)
      show ?thesis
        using a1 Inl
        by (simp add: PopulateContainer_fails_2 [OF a1 Inl] adapters_in_order_def error_of_def)
    next
      case a2: (Inr v2)
      show ?thesis
      proof (cases "getContainerMountedVolumes (proc_mounts p)")
        case (Inl err)
        show ?thesis
          using a1 a2 Inl
          by (simp add: PopulateContainer_fails_3 [OF a1 a2 Inl] adapters_in_order_def error_of_def)
      next
        case a3: (Inr v3)
        show ?thesis
        proof (cases "getContainerExposedPorts (connections p)")
          case (Inl err)
          show ?thesis
            using a1 a2 a3 Inl
            by (simp add: PopulateContainer_fails_4 [OF a1 a2 a3 Inl] adapters_in_order_def error_of_def)
        next
          case a4: (Inr v4)
          show ?thesis
          proof (cases "getContainerStartCommand (cmdline p)")
            case (Inl err)
            show ?thesis
              using a1 a2 a3 a4 Inl
              by (simp add: PopulateContainer_fails_5 [OF a1 a2 a3 a4 Inl] adapters_in_order_def error_of_def)
          next
            case a5: (Inr v5)
            show ?thesis
            proof (cases "getContainerSecurityProfiles (proc_attr_current p)")
              case (Inl err)
              show ?thesis
                using a1 a2 a3 a4 a5 Inl
                by (simp add: PopulateContainer_fails_6 [OF a1 a2 a3 a4 a5 Inl] adapters_in_order_def error_of_def)
            next
              case a6: (Inr v6)
              show ?thesis
              proof (cases "getEnvironmentVariables (environ p)")
                case (Inl err)
                show ?thesis
                  using a1 a2 a3 a4 a5 a6 Inl
                  by (simp add: PopulateContainer_fails_7 [OF a1 a2 a3 a4 a5 a6 Inl] adapters_in_order_def error_of_def)
              next
                case a7: (Inr v7)
                show ?thesis
                proof (cases "getContainerResourceUsage p")
                  case (Inl err)
                  show ?thesis
                    using a1 a2 a3 a4 a5 a6 a7 Inl
                    by (simp add: PopulateContainer_fails_8 [OF a1 a2 a3 a4 a5 a6 a7 Inl] adapters_in_order_def error_of_def)
                next
                  case a8: (Inr v8)
                  show ?thesis
                    using a1 a2 a3 a4 a5 a6 a7 a8
                    by (simp add: PopulateContainer_succeeds [OF a1 a2 a3 a4 a5 a6 a7 a8] adapters_in_order_def error_of_def)
                qed
              qed
            qed
          qed
        qed
      qed
    qed
  qed
qed

text \<open>
  Claim C7. \<^verbatim>\<open>PopulateContainer\<close> invokes the adapters one after the other in a fixed
  order. If some adapter returns an error, the adapters invoked are those before the first
  failing one and that one, none after it, and the error returned wraps the adapter's error
  with the message of the failing step. The result is \<^verbatim>\<open>nil\<close> exactly when no adapter
  returns an error, and then all eight adapters were invoked.
\<close>

theorem PopulateContainer_fail_fast:
  "fst (PopulateContainer p c) =
     (case find (\<lambda>a. adapter_error p a \<noteq> None) adapters_in_order of
        None \<Rightarrow> adapters_in_order
      | Some a \<Rightarrow> takeWhile (\<lambda>b. adapter_error p b = None) adapters_in_order @ [a])
   \<and> snd (snd (PopulateContainer p c)) =
     (case find (\<lambda>a. adapter_error p a \<noteq> None) adapters_in_order of
        None \<Rightarrow> None
      | Some a \<Rightarrow> map_option (Wrapped (step_message a)) (adapter_error p a))
   \<and> (snd (snd (PopulateContainer p c)) = None \<longleftrightarrow> (\<forall>a. adapter_error p a = None))"
proof -
  have every: "(\<forall>a. adapter_error p a = None) \<longleftrightarrow> (\<forall>a \<in> set adapters_in_order. adapter_error p a = None)"
    by (rule all_adapters)
  show ?thesis
    unfolding every by (rule PopulateContainer_steps)
qed

theorem PopulateContainer_fail_fast_witness:
  "fst (PopulateContainer (probe_ok\<lparr>proc_mounts := Inl (Opaque ''no such file'')\<rparr>) Container_zero)
     = [GetOpenFiles, GetContainerNetworkUsage, GetContainerMountedVolumes]
   \<and> snd (snd (PopulateContainer (probe_ok\<lparr>proc_mounts := Inl (Opaque ''no such file'')\<rparr>) Container_zero))
     = Some (Wrapped ''failed to get mounted volumes'' (Opaque ''no such file''))"
proof -
  let ?p = "probe_ok\<lparr>proc_mounts := Inl (Opaque ''no such file'')\<rparr>"
  have a1: "adapter_error ?p GetOpenFiles = None"
    by (simp add: error_of_def probe_ok_def getOpenFiles_def)
  have a2: "adapter_error ?p GetContainerNetworkUsage = None"
    by (simp add: error_of_def probe_ok_def getContainerNetworkUsage_def split: prod.splits)
  have a3: "adapter_error ?p GetContainerMountedVolumes = Some (Opaque ''no such file'')"
    by (simp add: error_of_def probe_ok_def getContainerMountedVolumes_def)
  show ?thesis
    using PopulateContainer_fail_fast [of ?p Container_zero] a1 a2 a3
    by (simp add: adapters_in_order_def)
qed

section \<open>Resource usage\<close>

lemma probe_ok_results:
  "getOpenFiles (lsof_output probe_ok) = Inr [LsofOutput_zero\<lparr>LsofOutput.PID := ''1''\<rparr>]"
  "getContainerNetworkUsage (proc_net_dev probe_ok) = Inr NetworkUsage_zero"
  "getContainerMountedVolumes (proc_mounts probe_ok) = Inr []"
  "getContainerExposedPorts (connections probe_ok) = Inr []"
  "getContainerStartCommand (cmdline probe_ok) = Inr ''sh''"
  "getContainerSecurityProfiles (proc_attr_current probe_ok) = Inr [''unconfined'']"
  "getEnvironmentVariables (environ probe_ok) = Inr []"
  "getContainerResourceUsage probe_ok =
     Inr \<lparr>CPUUsage = 300, MemoryUsage = [''RSS'' \<mapsto> 8192, ''VMS'' \<mapsto> 16384], SwapUsage = 0\<rparr>"
  by (simp_all add: probe_ok_def getOpenFiles_def lsof_lines_def lsof_line_def LsofOutput_zero_def
      getContainerNetworkUsage_def net_line_def Fields_def NetworkUsage_zero_def
      getContainerMountedVolumes_def mounts_line_def getContainerExposedPorts_def
      getContainerStartCommand_def TrimSpace_def ascii_space_def space_rune2_def space_rune3_def
      getContainerSecurityProfiles_def statm_MemoryInfo_def
      getEnvironmentVariables_def getContainerResourceUsage_def getContainerCPUUsage_def
      getContainerMemoryDetails_def newline_def)

lemma getContainerResourceUsage_SwapUsage:
  "getContainerResourceUsage p = Inr usage \<Longrightarrow> SwapUsage usage = 0"
  by (auto simp: getContainerResourceUsage_def split: sum.splits)

text \<open>
  Claim C9. After a successful population pass the resource usage should carry the CPU
  percentage, the memory usage by kind (RSS and VMS) in kB, and the swap usage. On a
  process with 4 pages of 4096 bytes, 2 of them resident, the library answers 8192 and
  16384 bytes, that is 8 and 16 kB; population succeeds and the memory usage of the
  populated container holds 8192 and 16384, the numbers of bytes, in the field that the
  struct declares and the detail view prints as kB. The swap usage is 0, as it is after
  every population: \<^verbatim>\<open>getContainerResourceUsage\<close> never assigns it.
\<close>

theorem resource_usage_memory_in_bytes:
  "memory_info probe_ok = Inr (statm_MemoryInfo 4096 4 2)
   \<and> snd (snd (PopulateContainer probe_ok Container_zero)) = None
   \<and> MemoryUsage (ResourceUsage (fst (snd (PopulateContainer probe_ok Container_zero)))) ''RSS''
       = Some 8192
   \<and> kB_of_bytes (mem_RSS (statm_MemoryInfo 4096 4 2)) = 8
   \<and> MemoryUsage (ResourceUsage (fst (snd (PopulateContainer probe_ok Container_zero)))) ''VMS''
       = Some 16384
   \<and> kB_of_bytes (mem_VMS (statm_MemoryInfo 4096 4 2)) = 16
   \<and> SwapUsage (ResourceUsage (fst (snd (PopulateContainer probe_ok Container_zero)))) = 0"
  by (simp add: PopulateContainer_succeeds [OF probe_ok_results])
     (simp add: probe_ok_def statm_MemoryInfo_def kB_of_bytes_def)

section \<open>Discovery, and the sample worlds\<close>

lemma GetContainers_fresh:
  "clock_check w - lastRefreshed s < 10 * Second \<Longrightarrow>
   GetContainers w populate s = (Inr (cachedContainers (range_order w) (containerCache s)), s, [])"
  by (simp add: GetContainers_def)

lemma GetContainers_listed:
  assumes "\<not> clock_check w - lastRefreshed s < 10 * Second"
      and "runc_list w = Inr out" and "out \<noteq> []" and "json_Unmarshal w out = Inr cs"
  shows "GetContainers w populate s =
     (case (if populate then populate_all (probes w) 0 cs else (Inr cs, [])) of
        (Inl err, calls) \<Rightarrow> (Inl err, s, RuncList # calls)
      | (Inr cs', calls) \<Rightarrow>
          (Inr cs', \<lparr>containerCache = store_all Map.empty cs', lastRefreshed = clock_stamp w\<rparr>,
           RuncList # calls))"
  using assms by (simp add: GetContainers_def)

lemma populate_probe_ok: "snd (snd (PopulateContainer probe_ok c)) = None"
  by (rule PopulateContainer_succeeds(2) [OF probe_ok_results])

lemma populate_probe_gone:
  "snd (snd (PopulateContainer probe_gone c)) =
     Some (Wrapped ''failed to get open files'' (Opaque ''exit status 1''))"
  by (rule PopulateContainer_fails_1(2)) (simp add: probe_gone_def getOpenFiles_def)

lemma Itoa_100: "Itoa 100 = ''100''"
  by code_simp

lemma Itoa_200: "Itoa 200 = ''200''"
  by code_simp

lemma PopulateContainer_probe_ok:
  "PopulateContainer probe_ok c = (adapters_in_order, populated_ok c, None)"
proof -
  have "fst (PopulateContainer probe_ok c) = adapters_in_order"
    by (simp add: PopulateContainer_succeeds(1) [OF probe_ok_results] adapters_in_order_def)
  moreover have "snd (snd (PopulateContainer probe_ok c)) = None"
    by (rule populate_probe_ok)
  ultimately show ?thesis
    unfolding populated_ok_def by (cases "PopulateContainer probe_ok c") simp
qed

lemma PID_populated_ok: "Container.PID (populated_ok c) = Container.PID c"
  unfolding populated_ok_def
  by (simp add: PopulateContainer_succeeds(3) [OF probe_ok_results])

lemma PID_bare: "Container.PID (bare pid) = pid"
  by (simp add: bare_def)

lemma world_at_simps:
  "clock_check (world_at t order listed ps) = t"
  "range_order (world_at t order listed ps) = order"
  "runc_list (world_at t order listed ps) = Inr ''[{}]''"
  "json_Unmarshal (world_at t order listed ps) out = Inr listed"
  "probes (world_at t order listed ps) = ps"
  "clock_stamp (world_at t order listed ps) = t"
  by (simp_all add: world_at_def)

lemma PopulateContainer_probe_gone:
  "PopulateContainer probe_gone c =
     ([GetOpenFiles], c\<lparr>OpenFiles := []\<rparr>,
      Some (Wrapped ''failed to get open files'' (Opaque ''exit status 1'')))"
  by (simp add: PopulateContainer_def probe_gone_def getOpenFiles_def)

lemma pass_second_gone:
  assumes "\<not> 60 * Second - lastRefreshed s < 10 * Second"
  shows "GetContainers (world_at (60 * Second) [] [bare 100, bare 200] first_ok) True s
     = (Inl (Wrapped ''failed to get open files'' (Opaque ''exit status 1'')), s,
        RuncList # map (AdapterCall 0 100) adapters_in_order @ [AdapterCall 1 200 GetOpenFiles])"
proof -
  let ?w = "world_at (60 * Second) [] [bare 100, bare 200] first_ok"
  have stale: "\<not> clock_check ?w - lastRefreshed s < 10 * Second"
    using assms by (simp add: world_at_simps)
  show ?thesis
    by (subst GetContainers_listed [OF stale, where out = "''[{}]''" and cs = "[bare 100, bare 200]"])
       (simp_all add: world_at_simps first_ok_def PopulateContainer_probe_ok
         PopulateContainer_probe_gone PID_bare)
qed

section \<open>Discovery aborts on the first failed population\<close>

lemma populate_all_first_failure:
  assumes "i < length cs"
      and "snd (snd (PopulateContainer (ps (k + i)) (cs ! i))) = Some err"
      and "\<forall>j<i. snd (snd (PopulateContainer (ps (k + j)) (cs ! j))) = None"
  shows "fst (populate_all ps k cs) = Inl err
         \<and> (\<forall>j pid a. k + i < j \<longrightarrow> AdapterCall j pid a \<notin> set (snd (populate_all ps k cs)))"
  using assms
proof (induction cs arbitrary: k i)
  case Nil
  then show ?case by simp
next
  case (Cons c cs)
  obtain adapters c' r where pc: "PopulateContainer (ps k) c = (adapters, c', r)"
    by (cases "PopulateContainer (ps k) c") auto
  show ?case
  proof (cases i)
    case 0
    with Cons.prems pc have "r = Some err" by simp
    with pc 0 show ?thesis by auto
  next
    case (Suc i')
    with Cons.prems pc have r: "r = None" by force
    have 1: "i' < length cs" using Cons.prems Suc by simp
    have 2: "snd (snd (PopulateContainer (ps (Suc k + i')) (cs ! i'))) = Some err"
      using Cons.prems Suc by simp
    have 3: "\<forall>j<i'. snd (snd (PopulateContainer (ps (Suc k + j)) (cs ! j))) = None"
    proof (intro allI impI)
      fix j assume "j < i'"
      then have "Suc j < i" using Suc by simp
      with Cons.prems(3) have "snd (snd (PopulateContainer (ps (k + Suc j)) ((c # cs) ! Suc j))) = None"
        by blast
      then show "snd (snd (PopulateContainer (ps (Suc k + j)) (cs ! j))) = None" by simp
    qed
    from Cons.IH [OF 1 2 3]
    have IH: "fst (populate_all ps (Suc k) cs) = Inl err"
      "\<forall>j pid a. Suc k + i' < j \<longrightarrow> AdapterCall j pid a \<notin> set (snd (populate_all ps (Suc k) cs))"
      by simp_all
    obtain res calls where pa: "populate_all ps (Suc k) cs = (res, calls)"
      by (cases "populate_all ps (Suc k) cs") auto
    with IH have res: "res = Inl err" by simp
    show ?thesis
      using pc r pa res IH(2) Suc by auto
  qed
qed

text \<open>
  Claim C1. When the bulk discovery pass (\<^verbatim>\<open>GetContainers\<close> with population requested, the
  cache not being fresh) lists containers and population fails for one of them, the first
  such being the \<open>i\<close>-th, the call returns that container's error, the cache map and the
  time of the last refresh are what they were before the call, and no adapter is invoked
  for any container after the \<open>i\<close>-th.
\<close>

theorem GetContainers_abort_on_failure:
  assumes "\<not> clock_check w - lastRefreshed s < 10 * Second"
      and "runc_list w = Inr out" and "out \<noteq> []" and "json_Unmarshal w out = Inr cs"
      and "i < length cs"
      and "snd (snd (PopulateContainer (probes w i) (cs ! i))) = Some err"
      and "\<forall>j<i. snd (snd (PopulateContainer (probes w j) (cs ! j))) = None"
  shows "fst (GetContainers w True s) = Inl err
         \<and> fst (snd (GetContainers w True s)) = s
         \<and> (\<forall>j pid a. i < j \<longrightarrow> AdapterCall j pid a \<notin> set (snd (snd (GetContainers w True s))))"
proof -
  have "fst (populate_all (probes w) 0 cs) = Inl err
        \<and> (\<forall>j pid a. 0 + i < j \<longrightarrow> AdapterCall j pid a \<notin> set (snd (populate_all (probes w) 0 cs)))"
    using assms(5-7) by (intro populate_all_first_failure) simp_all
  moreover obtain res calls where "populate_all (probes w) 0 cs = (res, calls)"
    by (cases "populate_all (probes w) 0 cs") auto
  ultimately show ?thesis
    by (simp add: GetContainers_listed [OF assms(1-4)])
qed

theorem GetContainers_abort_on_failure_witness:
  "fst (GetContainers (world_at (60 * Second) [] [bare 100, bare 200] first_ok) True
          \<lparr>containerCache = [''7'' \<mapsto> bare 7], lastRefreshed = 0\<rparr>)
     = Inl (Wrapped ''failed to get open files'' (Opaque ''exit status 1''))
   \<and> fst (snd (GetContainers (world_at (60 * Second) [] [bare 100, bare 200] first_ok) True
          \<lparr>containerCache = [''7'' \<mapsto> bare 7], lastRefreshed = 0\<rparr>))
     = \<lparr>containerCache = [''7'' \<mapsto> bare 7], lastRefreshed = 0\<rparr>
   \<and> (\<forall>pid a. AdapterCall 2 pid a \<notin>
         set (snd (snd (GetContainers
           (world_at (60 * Second) [] [bare 100, bare 200, bare 300] first_ok) True
           \<lparr>containerCache = [''7'' \<mapsto> bare 7], lastRefreshed = 0\<rparr>))))"
proof -
  have two: "fst (GetContainers (world_at (60 * Second) [] [bare 100, bare 200] first_ok) True
          \<lparr>containerCache = [''7'' \<mapsto> bare 7], lastRefreshed = 0\<rparr>)
     = Inl (Wrapped ''failed to get open files'' (Opaque ''exit status 1''))
   \<and> fst (snd (GetContainers (world_at (60 * Second) [] [bare 100, bare 200] first_ok) True
          \<lparr>containerCache = [''7'' \<mapsto> bare 7], lastRefreshed = 0\<rparr>))
     = \<lparr>containerCache = [''7'' \<mapsto> bare 7], lastRefreshed = 0\<rparr>"
    using GetContainers_abort_on_failure
      [of "world_at (60 * Second) [] [bare 100, bare 200] first_ok"
          "\<lparr>containerCache = [''7'' \<mapsto> bare 7], lastRefreshed = 0\<rparr>"
          "''[{}]''" "[bare 100, bare 200]" 1
          "Wrapped ''failed to get open files'' (Opaque ''exit status 1'')"]
    by (simp add: world_at_simps Second_def first_ok_def populate_probe_ok populate_probe_gone)
  have three: "\<forall>pid a. AdapterCall 2 pid a \<notin>
         set (snd (snd (GetContainers
           (world_at (60 * Second) [] [bare 100, bare 200, bare 300] first_ok) True
           \<lparr>containerCache = [''7'' \<mapsto> bare 7], lastRefreshed = 0\<rparr>)))"
    using GetContainers_abort_on_failure
      [of "world_at (60 * Second) [] [bare 100, bare 200, bare 300] first_ok"
          "\<lparr>containerCache = [''7'' \<mapsto> bare 7], lastRefreshed = 0\<rparr>"
          "''[{}]''" "[bare 100, bare 200, bare 300]" 1
          "Wrapped ''failed to get open files'' (Opaque ''exit status 1'')"]
    by (simp add: world_at_simps Second_def first_ok_def populate_probe_ok populate_probe_gone)
  from two three show ?thesis by simp
qed

section \<open>The freshness check stands before every discovery\<close>

lemma tick_fresh:
  "clock_check w - lastRefreshed s < 10 * Second \<Longrightarrow>
   StartCacheRefresh_tick w now s =
     (\<lparr>containerCache =
         store_all (containerCache s) (cachedContainers (range_order w) (containerCache s)),
       lastRefreshed = now\<rparr>, [])"
  by (simp add: StartCacheRefresh_tick_def GetContainers_fresh)

lemma refreshTable_fresh:
  "clock_check w - lastRefreshed s < 10 * Second \<Longrightarrow>
   snd (refreshTable created w s) = (s, [])"
  by (simp add: refreshTable_def GetContainers_fresh split: outcome.splits)

text \<open>
  Claim C2. The manual refresh of the user interface (\<open>r\<close>, \<^verbatim>\<open>refreshTable\<close>, hence
  \<^verbatim>\<open>GetContainers(true)\<close>) should run one full discovery and population pass however
  recently the cache was refreshed. Here the cache was refreshed 3 seconds ago and holds
  pid 100, while runc would list pids 100 and 200: \<^verbatim>\<open>refreshTable\<close> runs no external
  command at all, leaves the state as it is and shows the one cached container.
\<close>

theorem refreshTable_served_from_cache:
  "refreshTable Inr
     (world_at (3 * Second) [''100''] [bare 100, bare 200] all_ok)
     \<lparr>containerCache = [''100'' \<mapsto> bare 100], lastRefreshed = 0\<rparr>
   = (Returned [[''PID'', ''Owner'', ''Created'', ''Status''], [''100'', [], ''2024-01-01T00:00:00Z'', ''running'']],
      \<lparr>containerCache = [''100'' \<mapsto> bare 100], lastRefreshed = 0\<rparr>,
      [])"
  by (simp add: refreshTable_def GetContainers_fresh world_at_def Second_def
      cachedContainers_def Itoa_100 bare_def Container_zero_def)

lemma first_tick:
  "StartCacheRefresh_tick (world_at (5 * Second) [] [bare 100] all_ok) (5 * Second)
     initial_state
   = (\<lparr>containerCache = [''100'' \<mapsto> populated_ok (bare 100)], lastRefreshed = 5 * Second\<rparr>,
      RuncList # map (AdapterCall 0 100) adapters_in_order)"
proof -
  let ?w = "world_at (5 * Second) [] [bare 100] all_ok"
  have stale: "\<not> clock_check ?w - lastRefreshed initial_state < 10 * Second"
    by (simp add: world_at_simps initial_state_def Second_def)
  have "GetContainers ?w True initial_state
      = (Inr [populated_ok (bare 100)],
         \<lparr>containerCache = [''100'' \<mapsto> populated_ok (bare 100)], lastRefreshed = 5 * Second\<rparr>,
         RuncList # map (AdapterCall 0 100) adapters_in_order)"
    by (subst GetContainers_listed [OF stale, where out = "''[{}]''" and cs = "[bare 100]"])
       (simp_all add: world_at_simps all_ok_def PopulateContainer_probe_ok
         store_all_def store_def PID_populated_ok PID_bare Itoa_100)
  then show ?thesis
    by (simp add: StartCacheRefresh_tick_def store_all_def store_def PID_populated_ok PID_bare
        Itoa_100)
qed

lemma later_tick:
  assumes "t - t0 < 10 * Second"
  shows "StartCacheRefresh_tick (world_at t [''100''] listed ps) t
     \<lparr>containerCache = [''100'' \<mapsto> populated_ok (bare 100)], lastRefreshed = t0\<rparr>
   = (\<lparr>containerCache = [''100'' \<mapsto> populated_ok (bare 100)], lastRefreshed = t\<rparr>, [])"
  using assms
  by (simp add: tick_fresh world_at_simps cachedContainers_def store_all_def store_def
      PID_populated_ok PID_bare Itoa_100)

text \<open>
  Claim C3. Every tick of the periodic refresher should run a full discovery and
  population pass. Three ticks, 5 seconds apart, from the initial state: the first runs
  runc and the eight adapters for pid 100; the second and the third, with runc ready to
  list pids 100 and 200, run nothing, are served from the cache, and each moves the time
  of the last refresh to its own time, so that the cache stays fresh for the next tick.
\<close>

theorem ticks_served_from_cache:
  "StartCacheRefresh_ticks
     [(world_at (5 * Second) [] [bare 100] all_ok, 5 * Second),
      (world_at (10 * Second) [''100''] [bare 100, bare 200] all_ok, 10 * Second),
      (world_at (15 * Second) [''100''] [bare 100, bare 200] all_ok, 15 * Second)]
     initial_state
   = (\<lparr>containerCache = [''100'' \<mapsto> populated_ok (bare 100)], lastRefreshed = 15 * Second\<rparr>,
      [RuncList # map (AdapterCall 0 100) adapters_in_order, [], []])"
proof -
  have second: "10 * Second - 5 * Second < 10 * Second"
    and third: "15 * Second - 10 * Second < 10 * Second"
    by (simp_all add: Second_def)
  show ?thesis
    by (simp add: first_tick later_tick [OF second] later_tick [OF third])
qed

section \<open>What a tick of the refresher leaves in the cache\<close>

lemma store_all_Cons: "store_all m (c # cs) = store_all (store m c) cs"
  by (simp add: store_all_def)

lemma dom_store_all:
  "dom (store_all m cs) = dom m \<union> (\<lambda>c. Itoa (Container.PID c)) ` set cs"
proof (induction cs arbitrary: m)
  case Nil
  then show ?case by (simp add: store_all_def)
next
  case (Cons c cs)
  then show ?case by (auto simp: store_all_Cons store_def)
qed

lemma store_all_other:
  "k \<notin> (\<lambda>c. Itoa (Container.PID c)) ` set cs \<Longrightarrow> store_all m cs k = m k"
proof (induction cs arbitrary: m)
  case Nil
  then show ?case by (simp add: store_all_def)
next
  case (Cons c cs)
  then show ?case by (auto simp: store_all_Cons store_def)
qed

lemma store_all_key:
  "k \<in> (\<lambda>c. Itoa (Container.PID c)) ` set cs \<Longrightarrow>
   \<exists>c \<in> set cs. Itoa (Container.PID c) = k \<and> store_all m cs k = Some c"
proof (induction cs arbitrary: m)
  case Nil
  then show ?case by simp
next
  case (Cons x xs)
  show ?case
  proof (cases "k \<in> (\<lambda>c. Itoa (Container.PID c)) ` set xs")
    case True
    from Cons.IH [OF True, of "store m x"] show ?thesis
      by (auto simp: store_all_Cons)
  next
    case False
    with Cons.prems have "Itoa (Container.PID x) = k" by auto
    moreover have "store_all (store m x) xs k = store m x k"
      using False by (rule store_all_other)
    ultimately show ?thesis
      by (auto simp: store_all_Cons store_def)
  qed
qed

lemma GetContainers_pass_state:
  assumes "\<not> clock_check w - lastRefreshed s < 10 * Second"
      and "GetContainers w populate s = (Inr cs, s', calls)"
  shows "s' = \<lparr>containerCache = store_all Map.empty cs, lastRefreshed = clock_stamp w\<rparr>"
proof (cases "runc_list w")
  case (Inl err)
  with assms show ?thesis by (simp add: GetContainers_def)
next
  case out: (Inr out)
  show ?thesis
  proof (cases "json_Unmarshal w out")
    case (Inl err)
    with assms out show ?thesis by (simp add: GetContainers_def split: if_splits)
  next
    case listed: (Inr listed)
    obtain res pcalls where p: "(if populate then populate_all (probes w) 0 listed else (Inr listed, [])) = (res, pcalls)"
      by (cases "if populate then populate_all (probes w) 0 listed else (Inr listed, [])") auto
    from assms(2) have "out \<noteq> []"
      using assms(1) out by (auto simp: GetContainers_def split: if_splits)
    from GetContainers_listed [OF assms(1) out this listed, of populate] assms(2) p
    show ?thesis by (cases res) auto
  qed
qed

lemma pass_lists_100:
  "GetContainers (world_at (60 * Second) [''200''] [bare 100] all_ok) True
     \<lparr>containerCache = [''200'' \<mapsto> populated_ok (bare 200)], lastRefreshed = 0\<rparr>
   = (Inr [populated_ok (bare 100)],
      \<lparr>containerCache = [''100'' \<mapsto> populated_ok (bare 100)], lastRefreshed = 60 * Second\<rparr>,
      RuncList # map (AdapterCall 0 100) adapters_in_order)"
proof -
  let ?w = "world_at (60 * Second) [''200''] [bare 100] all_ok"
  let ?s = "\<lparr>containerCache = [''200'' \<mapsto> populated_ok (bare 200)], lastRefreshed = 0\<rparr>"
  have stale: "\<not> clock_check ?w - lastRefreshed ?s < 10 * Second"
    by (simp add: world_at_simps Second_def)
  show ?thesis
    by (subst GetContainers_listed [OF stale, where out = "''[{}]''" and cs = "[bare 100]"])
       (simp_all add: world_at_simps all_ok_def PopulateContainer_probe_ok
         store_all_def store_def PID_populated_ok PID_bare Itoa_100)
qed

text \<open>
  Claim C4, as the specification states it, fails. The cache is stale and holds an entry
  for pid 200; the tick's pass succeeds and finds pid 100 only. After the tick the entry
  for pid 200 is gone: \<^verbatim>\<open>GetContainers\<close> has replaced the whole map before the tick's
  own loop runs.
\<close>

theorem tick_drops_undiscovered:
  "fst (GetContainers (world_at (60 * Second) [''200''] [bare 100] all_ok) True
          \<lparr>containerCache = [''200'' \<mapsto> populated_ok (bare 200)], lastRefreshed = 0\<rparr>)
     = Inr [populated_ok (bare 100)]
   \<and> containerCache
        (fst (StartCacheRefresh_tick (world_at (60 * Second) [''200''] [bare 100] all_ok)
                (60 * Second)
                \<lparr>containerCache = [''200'' \<mapsto> populated_ok (bare 200)], lastRefreshed = 0\<rparr>))
        ''200'' = None"
  by (simp add: StartCacheRefresh_tick_def pass_lists_100 store_all_def store_def
      PID_populated_ok PID_bare Itoa_100)

text \<open>
  Claim C4, amended. The loop of a successful tick overwrites, by pid key, the entries of
  the containers its call of \<^verbatim>\<open>GetContainers\<close> returned, and removes no key of the cache
  as that call left it: every other key keeps its entry. When the call is served from the
  fresh cache, it runs nothing and every key the cache had before the tick is still
  there. When the call runs a discovery pass, it has replaced the whole map, and after
  the tick the keys of the cache are exactly the pid keys of the containers of the pass.
\<close>

theorem tick_merges_after_replace:
  assumes "GetContainers w True s = (Inr cs, s', calls)"
  shows "lastRefreshed (fst (StartCacheRefresh_tick w now s)) = now
         \<and> dom (containerCache (fst (StartCacheRefresh_tick w now s)))
           = dom (containerCache s') \<union> (\<lambda>c. Itoa (Container.PID c)) ` set cs
         \<and> (\<forall>k \<in> (\<lambda>c. Itoa (Container.PID c)) ` set cs.
               \<exists>c \<in> set cs. Itoa (Container.PID c) = k \<and>
                 containerCache (fst (StartCacheRefresh_tick w now s)) k = Some c)
         \<and> (\<forall>k. k \<notin> (\<lambda>c. Itoa (Container.PID c)) ` set cs \<longrightarrow>
               containerCache (fst (StartCacheRefresh_tick w now s)) k = containerCache s' k)
         \<and> (clock_check w - lastRefreshed s < 10 * Second \<longrightarrow>
               calls = [] \<and> dom (containerCache s) \<subseteq> dom (containerCache (fst (StartCacheRefresh_tick w now s))))
         \<and> (\<not> clock_check w - lastRefreshed s < 10 * Second \<longrightarrow>
               dom (containerCache (fst (StartCacheRefresh_tick w now s)))
                 = (\<lambda>c. Itoa (Container.PID c)) ` set cs)"
proof -
  have tick: "containerCache (fst (StartCacheRefresh_tick w now s)) = store_all (containerCache s') cs"
    using assms by (simp add: StartCacheRefresh_tick_def)
  have fresh: "calls = [] \<and> s' = s" if "clock_check w - lastRefreshed s < 10 * Second"
    using assms GetContainers_fresh [OF that, of True] by simp
  have stale: "containerCache s' = store_all Map.empty cs"
    if "\<not> clock_check w - lastRefreshed s < 10 * Second"
    using GetContainers_pass_state [OF that assms] by simp
  have stamp: "lastRefreshed (fst (StartCacheRefresh_tick w now s)) = now"
    using assms by (simp add: StartCacheRefresh_tick_def)
  have stored: "\<forall>k \<in> (\<lambda>c. Itoa (Container.PID c)) ` set cs.
      \<exists>c \<in> set cs. Itoa (Container.PID c) = k \<and> store_all (containerCache s') cs k = Some c"
    using store_all_key by blast
  have rest: "\<forall>k. k \<notin> (\<lambda>c. Itoa (Container.PID c)) ` set cs \<longrightarrow>
      store_all (containerCache s') cs k = containerCache s' k"
    using store_all_other by blast
  have served: "clock_check w - lastRefreshed s < 10 * Second \<longrightarrow>
      calls = [] \<and> dom (containerCache s) \<subseteq> dom (store_all (containerCache s') cs)"
    using fresh by (auto simp: dom_store_all)
  have replaced: "\<not> clock_check w - lastRefreshed s < 10 * Second \<longrightarrow>
      dom (store_all (containerCache s') cs) = (\<lambda>c. Itoa (Container.PID c)) ` set cs"
    using stale by (auto simp: dom_store_all)
  show ?thesis
    unfolding tick using stamp stored rest served replaced
    by (simp add: dom_store_all)
qed

theorem tick_merges_after_replace_witness:
  "dom (containerCache
        (fst (StartCacheRefresh_tick (world_at (60 * Second) [''200''] [bare 100] all_ok)
                (60 * Second)
                \<lparr>containerCache = [''200'' \<mapsto> populated_ok (bare 200)], lastRefreshed = 0\<rparr>)))
     = {''100''}"
  using tick_merges_after_replace [OF pass_lists_100, of "60 * Second"]
  by (simp add: world_at_simps Second_def PID_populated_ok PID_bare Itoa_100)


section \<open>A fetch error in the user interface\<close>

lemma runc_fails:
  "GetContainers ((world_at (60 * Second) [] [] all_ok)\<lparr>runc_list := Inl (Opaque ''exit status 1'')\<rparr>)
     populate initial_state
   = (Inl (Wrapped ''error executing runc command'' (Opaque ''exit status 1'')),
      initial_state, [RuncList])"
  by (simp add: GetContainers_def world_at_def initial_state_def Second_def)

text \<open>
  Claim C8, as the specification states it, fails. The runc command fails, so the
  on-demand refresh of the user interface gets an error from \<^verbatim>\<open>GetContainers\<close>; the
  outcome of \<^verbatim>\<open>refreshTable\<close> is a panic carrying that error, not a table without data.
\<close>

theorem refreshTable_fetch_error_panic:
  "fst (refreshTable Inr
          ((world_at (60 * Second) [] [] all_ok)\<lparr>runc_list := Inl (Opaque ''exit status 1'')\<rparr>)
          initial_state)
   = Panic (Wrapped ''error executing runc command'' (Opaque ''exit status 1''))"
  by (simp add: refreshTable_def runc_fails)

text \<open>
  Claim C8, amended. Whenever the call of \<^verbatim>\<open>GetContainers\<close> made by \<^verbatim>\<open>refreshTable\<close>
  returns an error, \<^verbatim>\<open>refreshTable\<close> panics with that error.
\<close>

theorem refreshTable_panics_on_fetch_error:
  "fst (GetContainers w True s) = Inl err \<Longrightarrow> fst (refreshTable created w s) = Panic err"
  by (cases "GetContainers w True s") (simp add: refreshTable_def)

theorem refreshTable_panics_on_fetch_error_witness:
  "fst (GetContainers (world_at (60 * Second) [] [bare 100, bare 200] first_ok) True initial_state)
     = Inl (Wrapped ''failed to get open files'' (Opaque ''exit status 1''))
   \<and> fst (refreshTable Inr (world_at (60 * Second) [] [bare 100, bare 200] first_ok) initial_state)
     = Panic (Wrapped ''failed to get open files'' (Opaque ''exit status 1''))"
proof -
  have "\<not> 60 * Second - lastRefreshed initial_state < 10 * Second"
    by (simp add: initial_state_def Second_def)
  then have g: "fst (GetContainers (world_at (60 * Second) [] [bare 100, bare 200] first_ok) True
        initial_state)
      = Inl (Wrapped ''failed to get open files'' (Opaque ''exit status 1''))"
    by (simp add: pass_second_gone)
  show ?thesis
    using refreshTable_panics_on_fetch_error [OF g, of Inr] g by simp
qed

section \<open>A lookup of a pid that discovery does not list\<close>

text \<open>
  Claim C10. Let the pid string parse as an integer, let the cache hold no entry under it
  or let the last refresh lie 20 seconds or more back, and let the call of
  \<^verbatim>\<open>GetContainers\<close> succeed with containers none of which has that pid. Then
  \<^verbatim>\<open>GetContainerByID\<close> returns, with a \<^verbatim>\<open>nil\<close> error, the value the cache held under the
  key before the call (the zero container if it held none), stores that value under the
  key in the cache as \<^verbatim>\<open>GetContainers\<close> left it, and sets the time of the last refresh to
  the current time.
\<close>

theorem GetContainerByID_not_found:
  assumes "Atoi pid = Inr pidInt"
      and "containerCache s pid = None \<or> \<not> since - lastRefreshed s < 20 * Second"
      and "GetContainers w False s = (Inr cs, s', calls)"
      and "\<forall>c \<in> set cs. Container.PID c \<noteq> pidInt"
  shows "GetContainerByID since w now pid s =
     (Inr (case containerCache s pid of None \<Rightarrow> Container_zero | Some c \<Rightarrow> c),
      \<lparr>containerCache =
         (containerCache s')(pid \<mapsto> (case containerCache s pid of None \<Rightarrow> Container_zero | Some c \<Rightarrow> c)),
       lastRefreshed = now\<rparr>,
      calls)"
proof -
  have "find (\<lambda>c. Container.PID c = pidInt) cs = None"
    using assms(4) by (simp add: find_None_iff)
  then show ?thesis
    using assms(1-3) by (auto simp: GetContainerByID_def Let_def)
qed

theorem GetContainerByID_not_found_witness:
  "GetContainerByID (60 * Second) (world_at (60 * Second) [''100''] [bare 200] all_ok) (61 * Second)
     ''100'' \<lparr>containerCache = [''100'' \<mapsto> populated_ok (bare 100)], lastRefreshed = 0\<rparr>
   = (Inr (populated_ok (bare 100)),
      \<lparr>containerCache = [''200'' \<mapsto> bare 200, ''100'' \<mapsto> populated_ok (bare 100)],
        lastRefreshed = 61 * Second\<rparr>,
      [RuncList])"
proof -
  let ?w = "world_at (60 * Second) [''100''] [bare 200] all_ok"
  let ?s = "\<lparr>containerCache = [''100'' \<mapsto> populated_ok (bare 100)], lastRefreshed = 0\<rparr>"
  have stale: "\<not> clock_check ?w - lastRefreshed ?s < 10 * Second"
    by (simp add: world_at_simps Second_def)
  have g: "GetContainers ?w False ?s
      = (Inr [bare 200], \<lparr>containerCache = [''200'' \<mapsto> bare 200], lastRefreshed = 60 * Second\<rparr>,
         [RuncList])"
    by (subst GetContainers_listed [OF stale, where out = "''[{}]''" and cs = "[bare 200]"])
       (simp_all add: world_at_simps store_all_def store_def PID_bare Itoa_200)
  have a: "Atoi ''100'' = Inr 100"
    by (simp add: Atoi_def is_digit_def digits_value_def)
  have old: "containerCache ?s ''100'' = None \<or> \<not> 60 * Second - lastRefreshed ?s < 20 * Second"
    by (simp add: Second_def)
  have absent: "\<forall>c \<in> set [bare 200]. Container.PID c \<noteq> 100"
    by (simp add: PID_bare)
  show ?thesis
    using GetContainerByID_not_found [OF a old g absent, of "61 * Second"] by simp
qed

end
